theory Spec2Isabelle
  imports Complex_Main
begin

section \<open>Vectors of the drawing library\<close>

text \<open>
  The particle code (\<^verbatim>\<open>src/js/particles.js\<close>) works on \<^verbatim>\<open>p5.Vector\<close> objects of
  p5.js 1.7.0, which the page loads from a CDN. Every vector of the program is made by
  \<^verbatim>\<open>createVector(x, y)\<close>, so its third component is 0 and is left out here. In this
  section the numbers are real numbers and the arithmetic is exact; the next section
  gives the same operations with the rounding of JavaScript's numbers, for the claims
  that rounding decides. The operations follow the library's documented behaviour:
  \<^verbatim>\<open>div(0)\<close> warns and leaves the vector as it is, \<^verbatim>\<open>normalize()\<close> leaves a vector of
  length 0 as it is, \<^verbatim>\<open>limit(max)\<close> rescales when \<^verbatim>\<open>magSq() > max * max\<close>.
\<close>

datatype vec = createVector (vx: real) (vy: real)

definition add_v :: "vec \<Rightarrow> vec \<Rightarrow> vec" where
  "add_v v w = createVector (vx v + vx w) (vy v + vy w)"

definition sub_v :: "vec \<Rightarrow> vec \<Rightarrow> vec" where
  "sub_v v w = createVector (vx v - vx w) (vy v - vy w)"

definition mult_v :: "vec \<Rightarrow> real \<Rightarrow> vec" where
  "mult_v v n = createVector (vx v * n) (vy v * n)"

definition div_v :: "vec \<Rightarrow> real \<Rightarrow> vec" where
  "div_v v n = (if n = 0 then v else createVector (vx v / n) (vy v / n))"

definition magSq_v :: "vec \<Rightarrow> real" where
  "magSq_v v = vx v * vx v + vy v * vy v"

definition mag_v :: "vec \<Rightarrow> real" where
  "mag_v v = sqrt (magSq_v v)"

definition normalize_v :: "vec \<Rightarrow> vec" where
  "normalize_v v = (let len = mag_v v in if len \<noteq> 0 then mult_v v (1 / len) else v)"

definition limit_v :: "vec \<Rightarrow> real \<Rightarrow> vec" where
  "limit_v v m =
     (let mSq = magSq_v v in
      if mSq > m * m then mult_v (div_v v (sqrt mSq)) m else v)"

definition dist_v :: "vec \<Rightarrow> vec \<Rightarrow> real" where
  "dist_v v w = mag_v (sub_v w v)"

text \<open>\<^verbatim>\<open>map(n, start1, stop1, start2, stop2)\<close> of p5.js, without clamping.\<close>

definition map_p5 :: "real \<Rightarrow> real \<Rightarrow> real \<Rightarrow> real \<Rightarrow> real \<Rightarrow> real" where
  "map_p5 n start1 stop1 start2 stop2 =
     (n - start1) / (stop1 - start1) * (stop2 - start2) + start2"

section \<open>Double-precision arithmetic\<close>

text \<open>
  JavaScript numbers are IEEE 754 binary64 numbers. Where a claim is decided by the
  branches the program takes, the exact operations above say what the program does. A
  bound on a magnitude is another matter: rounding can carry a result past a bound that
  holds in exact arithmetic. For such claims every operation is modelled with its
  rounding. \<open>fl a\<close> is the binary64 number nearest to the real number \<open>a\<close>, ties to the
  even significand: in the binade of \<open>a\<close> the numbers are \<open>ulp a\<close> apart, that is
  \<open>2 ^ (e - 52)\<close> when \<open>|a|\<close> is from \<open>2 ^ e\<close> up to \<open>2 ^ (e + 1)\<close>, and \<open>2 ^ (- 1074)\<close>
  below \<open>2 ^ (- 1022)\<close> (gradual underflow).
  The result of a binary64 operation on \<open>x\<close> and \<open>y\<close> is \<open>fl\<close> of the exact result, and
  \<^verbatim>\<open>Math.sqrt\<close> is the correctly rounded square root. The exponent is not bounded above
  here: \<open>fl a\<close> is the result of the operation whenever that result is finite, and
  overflow to \<^verbatim>\<open>Infinity\<close> is not modelled.
\<close>

definition binade :: "real \<Rightarrow> int" where
  "binade a = max \<lfloor>log 2 \<bar>a\<bar>\<rfloor> (- 1022)"

definition ulp :: "real \<Rightarrow> real" where
  "ulp a = 2 powr (of_int (binade a - 52))"

definition round_even :: "real \<Rightarrow> int" where
  "round_even y =
     (let f = \<lfloor>y\<rfloor>
      in if y - of_int f < 1 / 2 then f
         else if 1 / 2 < y - of_int f then f + 1
         else if even f then f else f + 1)"

definition fl :: "real \<Rightarrow> real" where
  "fl a = (if a = 0 then 0 else of_int (round_even (a / ulp a)) * ulp a)"

text \<open>
  The vector operations of p5.js on binary64 components. In \<^verbatim>\<open>magSq\<close> the third
  component adds \<^verbatim>\<open>0 * 0\<close>, which changes nothing.
\<close>

definition add_d :: "vec \<Rightarrow> vec \<Rightarrow> vec" where
  "add_d v w = createVector (fl (vx v + vx w)) (fl (vy v + vy w))"

definition sub_d :: "vec \<Rightarrow> vec \<Rightarrow> vec" where
  "sub_d v w = createVector (fl (vx v - vx w)) (fl (vy v - vy w))"

definition mult_d :: "vec \<Rightarrow> real \<Rightarrow> vec" where
  "mult_d v n = createVector (fl (vx v * n)) (fl (vy v * n))"

definition div_d :: "vec \<Rightarrow> real \<Rightarrow> vec" where
  "div_d v n = (if n = 0 then v else createVector (fl (vx v / n)) (fl (vy v / n)))"

definition magSq_d :: "vec \<Rightarrow> real" where
  "magSq_d v = fl (fl (vx v * vx v) + fl (vy v * vy v))"

definition mag_d :: "vec \<Rightarrow> real" where
  "mag_d v = fl (sqrt (magSq_d v))"

definition normalize_d :: "vec \<Rightarrow> vec" where
  "normalize_d v = (let len = mag_d v in if len \<noteq> 0 then mult_d v (fl (1 / len)) else v)"

definition limit_d :: "vec \<Rightarrow> real \<Rightarrow> vec" where
  "limit_d v m =
     (let mSq = magSq_d v in
      if mSq > fl (m * m) then mult_d (div_d v (fl (sqrt mSq))) m else v)"

definition dist_d :: "vec \<Rightarrow> vec \<Rightarrow> real" where
  "dist_d v w = mag_d (sub_d w v)"

definition map_d :: "real \<Rightarrow> real \<Rightarrow> real \<Rightarrow> real \<Rightarrow> real \<Rightarrow> real" where
  "map_d n start1 stop1 start2 stop2 =
     fl (fl (fl (fl (n - start1) / fl (stop1 - start1)) * fl (stop2 - start2)) + start2)"

text \<open>
  A vector is within a bound when its length is, both the exact length of the vector of
  its components and the length that \<^verbatim>\<open>mag()\<close> computes.
\<close>

definition magnitude_within :: "vec \<Rightarrow> real \<Rightarrow> bool" where
  "magnitude_within w b \<longleftrightarrow> mag_v w \<le> b \<and> mag_d w \<le> b"

section \<open>Particle\<close>

record particle =
  position :: vec
  velocity :: vec
  acceleration :: vec
  maxSpeed :: real
  maxForce :: real
  psize :: real
  color :: "real \<times> real \<times> real \<times> real"
  lifespan :: real
  decay :: real
  isAttracted :: bool

text \<open>
  The constructor and \<^verbatim>\<open>addParticle\<close> call the global random generator ten times. The
  outcomes of these calls are an input of the model, in the order of the calls:
  \<^verbatim>\<open>random(width)\<close>, \<^verbatim>\<open>random(height)\<close>, \<^verbatim>\<open>p5.Vector.random2D()\<close>, \<^verbatim>\<open>random(0.5, 2)\<close>,
  \<^verbatim>\<open>random(3, 8)\<close>, four times \<^verbatim>\<open>random(150, 255)\<close> or \<^verbatim>\<open>random(150, 200)\<close>, and
  \<^verbatim>\<open>random(0.5, 1.5)\<close>.
\<close>

record draws =
  rand_x :: real
  rand_y :: real
  rand_dir :: vec
  rand_speed :: real
  rand_size :: real
  rand_color :: "real \<times> real \<times> real \<times> real"
  rand_decay :: real

definition Particle :: "real \<Rightarrow> real \<Rightarrow> draws \<Rightarrow> particle" where
  "Particle x y d =
     \<lparr> position = createVector x y,
       velocity = mult_v (rand_dir d) (rand_speed d),
       acceleration = createVector 0 0,
       maxSpeed = 4,
       maxForce = 0.1,
       psize = rand_size d,
       color = rand_color d,
       lifespan = 255,
       decay = rand_decay d,
       isAttracted = False \<rparr>"

definition applyForce :: "vec \<Rightarrow> particle \<Rightarrow> particle" where
  "applyForce force p = p\<lparr>acceleration := add_v (acceleration p) force\<rparr>"

text \<open>
  \<^verbatim>\<open>seek\<close> builds its result in fresh vectors (\<^verbatim>\<open>p5.Vector.sub\<close> is the static version,
  which allocates), so it writes to no field of the particle: it is a function from the
  particle to the returned vector.
\<close>

definition seek :: "particle \<Rightarrow> vec \<Rightarrow> real \<Rightarrow> vec" where
  "seek p target strength =
     (let desired = sub_v target (position p);
          distance = mag_v desired
      in if distance < 1 then createVector 0 0
         else
           (let desired = normalize_v desired;
                desired = mult_v desired (maxSpeed p);
                steer = sub_v desired (velocity p);
                steer = limit_v steer (maxForce p);
                steer = mult_v steer strength
            in steer))"

fun separate_loop :: "particle \<Rightarrow> real \<Rightarrow> particle list \<Rightarrow> vec \<times> nat \<Rightarrow> vec \<times> nat" where
  "separate_loop p desiredSeparation [] (steer, count) = (steer, count)"
| "separate_loop p desiredSeparation (other # rest) (steer, count) =
     (let d = dist_v (position p) (position other)
      in if d > 0 \<and> d < desiredSeparation then
           (let diff = sub_v (position p) (position other);
                diff = normalize_v diff;
                diff = div_v diff d
            in separate_loop p desiredSeparation rest (add_v steer diff, Suc count))
         else separate_loop p desiredSeparation rest (steer, count))"

definition separate :: "particle \<Rightarrow> particle list \<Rightarrow> real \<Rightarrow> vec" where
  "separate p particles desiredSeparation =
     (case separate_loop p desiredSeparation particles (createVector 0 0, 0) of
        (steer, count) \<Rightarrow>
          (let steer = (if count > 0 then div_v steer (real count) else steer)
           in if mag_v steer > 0 then
                (let steer = normalize_v steer;
                     steer = mult_v steer (maxSpeed p);
                     steer = sub_v steer (velocity p);
                     steer = limit_v steer (maxForce p)
                 in steer)
              else steer))"

fun align_loop :: "particle \<Rightarrow> real \<Rightarrow> particle list \<Rightarrow> vec \<times> nat \<Rightarrow> vec \<times> nat" where
  "align_loop p neighborDistance [] (sumv, count) = (sumv, count)"
| "align_loop p neighborDistance (other # rest) (sumv, count) =
     (let d = dist_v (position p) (position other)
      in if d > 0 \<and> d < neighborDistance then
           align_loop p neighborDistance rest (add_v sumv (velocity other), Suc count)
         else align_loop p neighborDistance rest (sumv, count))"

definition align :: "particle \<Rightarrow> particle list \<Rightarrow> real \<Rightarrow> vec" where
  "align p particles neighborDistance =
     (case align_loop p neighborDistance particles (createVector 0 0, 0) of
        (sumv, count) \<Rightarrow>
          if count > 0 then
            (let sumv = div_v sumv (real count);
                 sumv = normalize_v sumv;
                 sumv = mult_v sumv (maxSpeed p);
                 steer = sub_v sumv (velocity p);
                 steer = limit_v steer (maxForce p)
             in steer)
          else createVector 0 0)"

fun cohesion_loop :: "particle \<Rightarrow> real \<Rightarrow> particle list \<Rightarrow> vec \<times> nat \<Rightarrow> vec \<times> nat" where
  "cohesion_loop p neighborDistance [] (sumv, count) = (sumv, count)"
| "cohesion_loop p neighborDistance (other # rest) (sumv, count) =
     (let d = dist_v (position p) (position other)
      in if d > 0 \<and> d < neighborDistance then
           cohesion_loop p neighborDistance rest (add_v sumv (position other), Suc count)
         else cohesion_loop p neighborDistance rest (sumv, count))"

definition cohesion :: "particle \<Rightarrow> particle list \<Rightarrow> real \<Rightarrow> vec" where
  "cohesion p particles neighborDistance =
     (case cohesion_loop p neighborDistance particles (createVector 0 0, 0) of
        (sumv, count) \<Rightarrow>
          if count > 0 then seek p (div_v sumv (real count)) 0.5
          else createVector 0 0)"

text \<open>
  In \<^verbatim>\<open>borders\<close> the local \<^verbatim>\<open>desired\<close> starts as \<^verbatim>\<open>null\<close> (here \<open>None\<close>);
  \<^verbatim>\<open>desired || createVector(..)\<close> keeps a vector that the test on x has already made.
\<close>

definition borders :: "particle \<Rightarrow> real \<Rightarrow> real \<Rightarrow> vec" where
  "borders p width height =
     (let buffer = 50;
          desired =
            (if vx (position p) < buffer then
               Some (createVector (maxSpeed p) (vy (velocity p)))
             else if vx (position p) > width - buffer then
               Some (createVector (- maxSpeed p) (vy (velocity p)))
             else None);
          desired =
            (if vy (position p) < buffer then
               (case desired of Some v \<Rightarrow> Some v
                | None \<Rightarrow> Some (createVector (vx (velocity p)) (maxSpeed p)))
             else if vy (position p) > height - buffer then
               (case desired of Some v \<Rightarrow> Some v
                | None \<Rightarrow> Some (createVector (vx (velocity p)) (- maxSpeed p)))
             else desired)
      in case desired of
           Some v \<Rightarrow>
             (let v = normalize_v v;
                  v = mult_v v (maxSpeed p);
                  steer = sub_v v (velocity p);
                  steer = limit_v steer (maxForce p)
              in steer)
         | None \<Rightarrow> createVector 0 0)"

definition Particle_update :: "particle \<Rightarrow> particle" where
  "Particle_update p =
     (let v = limit_v (add_v (velocity p) (acceleration p)) (maxSpeed p);
          p = p\<lparr>velocity := v\<rparr>;
          p = p\<lparr>position := add_v (position p) (velocity p)\<rparr>;
          p = p\<lparr>acceleration := mult_v (acceleration p) 0\<rparr>
      in if \<not> isAttracted p then p\<lparr>lifespan := lifespan p - decay p\<rparr>
         else p\<lparr>lifespan := min 255 (lifespan p + decay p * 2)\<rparr>)"

definition isDead :: "particle \<Rightarrow> bool" where
  "isDead p \<longleftrightarrow> lifespan p \<le> 0"

section \<open>Particle in double precision\<close>

text \<open>
  The constructor and the methods of \<^verbatim>\<open>Particle\<close> once more, each arithmetic operation
  with its rounding. The literal \<^verbatim>\<open>0.1\<close> is the binary64 number nearest to one tenth;
  the other literals are binary64 numbers as they stand.
\<close>

definition Particle_d :: "real \<Rightarrow> real \<Rightarrow> draws \<Rightarrow> particle" where
  "Particle_d x y d =
     \<lparr> position = createVector x y,
       velocity = mult_d (rand_dir d) (rand_speed d),
       acceleration = createVector 0 0,
       maxSpeed = 4,
       maxForce = fl 0.1,
       psize = rand_size d,
       color = rand_color d,
       lifespan = 255,
       decay = rand_decay d,
       isAttracted = False \<rparr>"

definition seek_d :: "particle \<Rightarrow> vec \<Rightarrow> real \<Rightarrow> vec" where
  "seek_d p target strength =
     (let desired = sub_d target (position p);
          distance = mag_d desired
      in if distance < 1 then createVector 0 0
         else
           (let desired = normalize_d desired;
                desired = mult_d desired (maxSpeed p);
                steer = sub_d desired (velocity p);
                steer = limit_d steer (maxForce p);
                steer = mult_d steer strength
            in steer))"

fun separate_loop_d :: "particle \<Rightarrow> real \<Rightarrow> particle list \<Rightarrow> vec \<times> nat \<Rightarrow> vec \<times> nat" where
  "separate_loop_d p desiredSeparation [] (steer, count) = (steer, count)"
| "separate_loop_d p desiredSeparation (other # rest) (steer, count) =
     (let d = dist_d (position p) (position other)
      in if d > 0 \<and> d < desiredSeparation then
           (let diff = sub_d (position p) (position other);
                diff = normalize_d diff;
                diff = div_d diff d
            in separate_loop_d p desiredSeparation rest (add_d steer diff, Suc count))
         else separate_loop_d p desiredSeparation rest (steer, count))"

definition separate_d :: "particle \<Rightarrow> particle list \<Rightarrow> real \<Rightarrow> vec" where
  "separate_d p particles desiredSeparation =
     (case separate_loop_d p desiredSeparation particles (createVector 0 0, 0) of
        (steer, count) \<Rightarrow>
          (let steer = (if count > 0 then div_d steer (real count) else steer)
           in if mag_d steer > 0 then
                (let steer = normalize_d steer;
                     steer = mult_d steer (maxSpeed p);
                     steer = sub_d steer (velocity p);
                     steer = limit_d steer (maxForce p)
                 in steer)
              else steer))"

fun align_loop_d :: "particle \<Rightarrow> real \<Rightarrow> particle list \<Rightarrow> vec \<times> nat \<Rightarrow> vec \<times> nat" where
  "align_loop_d p neighborDistance [] (sumv, count) = (sumv, count)"
| "align_loop_d p neighborDistance (other # rest) (sumv, count) =
     (let d = dist_d (position p) (position other)
      in if d > 0 \<and> d < neighborDistance then
           align_loop_d p neighborDistance rest (add_d sumv (velocity other), Suc count)
         else align_loop_d p neighborDistance rest (sumv, count))"

definition align_d :: "particle \<Rightarrow> particle list \<Rightarrow> real \<Rightarrow> vec" where
  "align_d p particles neighborDistance =
     (case align_loop_d p neighborDistance particles (createVector 0 0, 0) of
        (sumv, count) \<Rightarrow>
          if count > 0 then
            (let sumv = div_d sumv (real count);
                 sumv = normalize_d sumv;
                 sumv = mult_d sumv (maxSpeed p);
                 steer = sub_d sumv (velocity p);
                 steer = limit_d steer (maxForce p)
             in steer)
          else createVector 0 0)"

fun cohesion_loop_d :: "particle \<Rightarrow> real \<Rightarrow> particle list \<Rightarrow> vec \<times> nat \<Rightarrow> vec \<times> nat" where
  "cohesion_loop_d p neighborDistance [] (sumv, count) = (sumv, count)"
| "cohesion_loop_d p neighborDistance (other # rest) (sumv, count) =
     (let d = dist_d (position p) (position other)
      in if d > 0 \<and> d < neighborDistance then
           cohesion_loop_d p neighborDistance rest (add_d sumv (position other), Suc count)
         else cohesion_loop_d p neighborDistance rest (sumv, count))"

definition cohesion_d :: "particle \<Rightarrow> particle list \<Rightarrow> real \<Rightarrow> vec" where
  "cohesion_d p particles neighborDistance =
     (case cohesion_loop_d p neighborDistance particles (createVector 0 0, 0) of
        (sumv, count) \<Rightarrow>
          if count > 0 then seek_d p (div_d sumv (real count)) 0.5
          else createVector 0 0)"

definition borders_d :: "particle \<Rightarrow> real \<Rightarrow> real \<Rightarrow> vec" where
  "borders_d p width height =
     (let buffer = 50;
          desired =
            (if vx (position p) < buffer then
               Some (createVector (maxSpeed p) (vy (velocity p)))
             else if vx (position p) > fl (width - buffer) then
               Some (createVector (- maxSpeed p) (vy (velocity p)))
             else None);
          desired =
            (if vy (position p) < buffer then
               (case desired of Some v \<Rightarrow> Some v
                | None \<Rightarrow> Some (createVector (vx (velocity p)) (maxSpeed p)))
             else if vy (position p) > fl (height - buffer) then
               (case desired of Some v \<Rightarrow> Some v
                | None \<Rightarrow> Some (createVector (vx (velocity p)) (- maxSpeed p)))
             else desired)
      in case desired of
           Some v \<Rightarrow>
             (let v = normalize_d v;
                  v = mult_d v (maxSpeed p);
                  steer = sub_d v (velocity p);
                  steer = limit_d steer (maxForce p)
              in steer)
         | None \<Rightarrow> createVector 0 0)"

definition Particle_update_d :: "particle \<Rightarrow> particle" where
  "Particle_update_d p =
     (let v = limit_d (add_d (velocity p) (acceleration p)) (maxSpeed p);
          p = p\<lparr>velocity := v\<rparr>;
          p = p\<lparr>position := add_d (position p) (velocity p)\<rparr>;
          p = p\<lparr>acceleration := mult_d (acceleration p) 0\<rparr>
      in if \<not> isAttracted p then p\<lparr>lifespan := fl (lifespan p - decay p)\<rparr>
         else p\<lparr>lifespan := min 255 (fl (lifespan p + fl (decay p * 2)))\<rparr>)"

section \<open>ParticleSystem\<close>

record system =
  particles :: "particle list"
  attractors :: "vec list"
  maxParticles :: nat

definition addParticle :: "draws \<Rightarrow> particle list \<Rightarrow> particle list" where
  "addParticle d ps = ps @ [Particle (rand_x d) (rand_y d) d]"

definition setAttractors :: "vec list \<Rightarrow> system \<Rightarrow> system" where
  "setAttractors landmarks s = s\<lparr>attractors := landmarks\<rparr>"

text \<open>
  The \<^verbatim>\<open>while\<close> loop at the head of \<^verbatim>\<open>update\<close>. The k-th particle it adds takes the
  random outcomes \<open>rnd k\<close>.
\<close>

function replenish :: "(nat \<Rightarrow> draws) \<Rightarrow> nat \<Rightarrow> nat \<Rightarrow> particle list \<Rightarrow> particle list" where
  "replenish rnd k maxP ps =
     (if length ps < maxP then replenish rnd (Suc k) maxP (addParticle (rnd k) ps) else ps)"
  by pat_completeness auto
termination
  by (relation "measure (\<lambda>(rnd, k, maxP, ps). maxP - length ps)") (auto simp: addParticle_def)

declare replenish.simps [simp del]

text \<open>
  The search for the closest attractor within 150 units. The pair of locals
  \<^verbatim>\<open>closestDist\<close>, \<^verbatim>\<open>closestAttractor\<close> starts as \<^verbatim>\<open>Infinity\<close>, \<^verbatim>\<open>null\<close> (here \<open>None\<close>:
  every distance is below \<^verbatim>\<open>Infinity\<close>) and the two are always assigned together.
\<close>

fun closest_loop :: "vec \<Rightarrow> vec list \<Rightarrow> (real \<times> vec) option \<Rightarrow> (real \<times> vec) option" where
  "closest_loop pos [] best = best"
| "closest_loop pos (attractor # rest) best =
     (let d = dist_v pos attractor
      in if (case best of None \<Rightarrow> True | Some (closestDist, _) \<Rightarrow> d < closestDist) \<and> d < 150
         then closest_loop pos rest (Some (d, attractor))
         else closest_loop pos rest best)"

text \<open>The same search on binary64 distances.\<close>

fun closest_loop_d :: "vec \<Rightarrow> vec list \<Rightarrow> (real \<times> vec) option \<Rightarrow> (real \<times> vec) option" where
  "closest_loop_d pos [] best = best"
| "closest_loop_d pos (attractor # rest) best =
     (let d = dist_d pos attractor
      in if (case best of None \<Rightarrow> True | Some (closestDist, _) \<Rightarrow> d < closestDist) \<and> d < 150
         then closest_loop_d pos rest (Some (d, attractor))
         else closest_loop_d pos rest best)"

text \<open>
  The body of the \<^verbatim>\<open>for\<close> loop of \<^verbatim>\<open>update\<close> for one particle, in three parts:
  the four flocking forces (source lines 215 to 223), the attraction (lines 226 to 250),
  and \<^verbatim>\<open>p.update()\<close>. The particle is an element of the array it scans, and the scans
  read the array as it is at that moment.
\<close>

definition flock :: "real \<Rightarrow> real \<Rightarrow> particle list \<Rightarrow> particle \<Rightarrow> particle" where
  "flock width height ps p =
     (let separation = mult_v (separate p ps 25) 1.5;
          alignment = mult_v (align p ps 50) 1.0;
          coh = mult_v (cohesion p ps 50) 1.0;
          bord = mult_v (borders p width height) 1.5;
          p = applyForce separation p;
          p = applyForce alignment p;
          p = applyForce coh p;
          p = applyForce bord p
      in p)"

definition attraction :: "vec list \<Rightarrow> particle \<Rightarrow> particle" where
  "attraction atts p =
     (let p = p\<lparr>isAttracted := False\<rparr>
      in if length atts > 0 then
           (case closest_loop (position p) atts None of
              Some (closestDist, closestAttractor) \<Rightarrow>
                (let strength = map_p5 closestDist 0 150 2.5 0.5;
                     force = seek p closestAttractor strength;
                     p = applyForce force p
                 in p\<lparr>isAttracted := True\<rparr>)
            | None \<Rightarrow> p)
         else p)"

definition tick :: "real \<Rightarrow> real \<Rightarrow> vec list \<Rightarrow> particle list \<Rightarrow> particle \<Rightarrow> particle" where
  "tick width height atts ps p = Particle_update (attraction atts (flock width height ps p))"

text \<open>
  The \<^verbatim>\<open>for\<close> loop runs \<open>i\<close> from \<^verbatim>\<open>length - 1\<close> down to 0. \<open>update_loop n\<close> runs the
  iterations \<open>n - 1, \<dots>, 0\<close>. Reading \<^verbatim>\<open>particles[i]\<close> beyond the end gives
  \<^verbatim>\<open>undefined\<close>, and the method call on it throws a \<^verbatim>\<open>TypeError\<close>.
  \<^verbatim>\<open>splice(i, 1)\<close> removes the element at \<open>i\<close>.
\<close>

datatype error = TypeError

definition splice1 :: "nat \<Rightarrow> 'a list \<Rightarrow> 'a list" where
  "splice1 i xs = take i xs @ drop (Suc i) xs"

fun update_loop :: "nat \<Rightarrow> real \<Rightarrow> real \<Rightarrow> vec list \<Rightarrow> particle list \<Rightarrow> error + particle list" where
  "update_loop 0 width height atts ps = Inr ps"
| "update_loop (Suc i) width height atts ps =
     (if i < length ps then
        (let p = tick width height atts ps (ps ! i)
         in if isDead p then update_loop i width height atts (splice1 i ps)
            else update_loop i width height atts (ps[i := p]))
      else Inl TypeError)"

definition ParticleSystem_update ::
    "real \<Rightarrow> real \<Rightarrow> (nat \<Rightarrow> draws) \<Rightarrow> system \<Rightarrow> error + system" where
  "ParticleSystem_update width height rnd s =
     (let ps = replenish rnd 0 (maxParticles s) (particles s)
      in case update_loop (length ps) width height (attractors s) ps of
           Inl e \<Rightarrow> Inl e
         | Inr ps' \<Rightarrow> Inr (s\<lparr>particles := ps'\<rparr>))"

text \<open>
  The constructor of \<^verbatim>\<open>ParticleSystem\<close>: a counting loop that calls \<^verbatim>\<open>addParticle\<close>
  \<^verbatim>\<open>numParticles\<close> times.
\<close>

function init_loop :: "(nat \<Rightarrow> draws) \<Rightarrow> nat \<Rightarrow> nat \<Rightarrow> particle list \<Rightarrow> particle list" where
  "init_loop rnd i maxP ps =
     (if i < maxP then init_loop rnd (Suc i) maxP (addParticle (rnd i) ps) else ps)"
  by pat_completeness auto
termination
  by (relation "measure (\<lambda>(rnd, i, maxP, ps). maxP - i)") auto

declare init_loop.simps [simp del]

definition ParticleSystem :: "nat \<Rightarrow> (nat \<Rightarrow> draws) \<Rightarrow> system" where
  "ParticleSystem numParticles rnd =
     \<lparr> particles = init_loop rnd 0 numParticles [],
       attractors = [],
       maxParticles = numParticles \<rparr>"

subsection \<open>The number of particles removed by one call of update\<close>

text \<open>
  A counter that is not in the program: \<open>deaths\<close> follows \<open>update_loop\<close> step by step and
  counts the iterations that end in \<^verbatim>\<open>splice\<close>; \<open>died\<close> is that number for a whole call
  of \<^verbatim>\<open>update\<close>.
\<close>

fun deaths :: "nat \<Rightarrow> real \<Rightarrow> real \<Rightarrow> vec list \<Rightarrow> particle list \<Rightarrow> nat" where
  "deaths 0 width height atts ps = 0"
| "deaths (Suc i) width height atts ps =
     (if i < length ps then
        (let p = tick width height atts ps (ps ! i)
         in if isDead p then Suc (deaths i width height atts (splice1 i ps))
            else deaths i width height atts (ps[i := p]))
      else 0)"

definition died :: "real \<Rightarrow> real \<Rightarrow> (nat \<Rightarrow> draws) \<Rightarrow> system \<Rightarrow> nat" where
  "died width height rnd s =
     (let ps = replenish rnd 0 (maxParticles s) (particles s)
      in deaths (length ps) width height (attractors s) ps)"

subsection \<open>Concrete states\<close>

text \<open>
  A particle as the constructor makes it at (100, 100) on an 800 by 600 canvas, with
  initial velocity (1, 0) and decay 1; the same particle after 254 ticks without
  attraction has brought its lifespan down to 1; and populations of one particle.
\<close>

definition draws0 :: draws where
  "draws0 = \<lparr> rand_x = 100, rand_y = 100, rand_dir = createVector 1 0, rand_speed = 1,
      rand_size = 3, rand_color = (150, 150, 150, 150), rand_decay = 1 \<rparr>"

definition rnd0 :: "nat \<Rightarrow> draws" where
  "rnd0 k = draws0"

definition fresh_particle :: particle where
  "fresh_particle = Particle 100 100 draws0"

definition old_particle :: particle where
  "old_particle = fresh_particle\<lparr>lifespan := 1\<rparr>"

definition system_fresh :: system where
  "system_fresh = \<lparr> particles = [fresh_particle], attractors = [], maxParticles = 1 \<rparr>"

definition system_dying :: system where
  "system_dying = \<lparr> particles = [old_particle], attractors = [], maxParticles = 1 \<rparr>"

text \<open>The particle of the border scenario: at (5, 300), moving left with velocity (-3, 0).\<close>

definition border_particle :: particle where
  "border_particle =
     fresh_particle\<lparr>position := createVector 5 300, velocity := createVector (- 3) 0\<rparr>"

text \<open>
  A particle in double precision whose velocity (2, 3.25) and acceleration (0.375, 0.375)
  add up to a vector longer than \<^verbatim>\<open>maxSpeed\<close>.
\<close>

definition fast_particle :: particle where
  "fast_particle =
     (Particle_d 100 100 draws0)
       \<lparr>velocity := createVector 2 3.25, acceleration := createVector 0.375 0.375\<rparr>"

subsection \<open>The range of the lifespan\<close>

text \<open>
  The lifespan is at most 255, its initial value. That this stays so needs a decay rate
  that is not negative; the constructor draws it from \<^verbatim>\<open>random(0.5, 1.5)\<close>.
\<close>

definition lifespan_ok :: "particle \<Rightarrow> bool" where
  "lifespan_ok p \<longleftrightarrow> 0 \<le> decay p \<and> lifespan p \<le> 255"

section \<open>Facts about vectors\<close>

lemma magSq_nonneg: "0 \<le> magSq_v v"
  by (simp add: magSq_v_def)

lemma mag_nonneg: "0 \<le> mag_v v"
  by (simp add: mag_v_def magSq_nonneg)

lemma mag_zero: "mag_v (createVector 0 0) = 0"
  by (simp add: mag_v_def magSq_v_def)



lemma sqrt9: "sqrt 9 = 3"
  using real_sqrt_abs[of 3] by simp

lemma sqrt16: "sqrt 16 = 4"
  using real_sqrt_abs[of 4] by simp

lemma sqrt49: "sqrt 49 = 7"
  using real_sqrt_abs[of 7] by simp


lemmas vec_ops = dist_v_def sub_v_def add_v_def mult_v_def div_v_def mag_v_def magSq_v_def
  limit_v_def normalize_v_def

section \<open>Facts about rounding\<close>

lemma round_even_error: "\<bar>of_int (round_even y) - y\<bar> \<le> 1 / 2"
proof -
  have "of_int \<lfloor>y\<rfloor> \<le> y" "y < of_int \<lfloor>y\<rfloor> + 1" by linarith+
  then show ?thesis
    by (auto simp: round_even_def Let_def)
qed

lemma round_even_nonneg: "0 \<le> y \<Longrightarrow> 0 \<le> round_even y"
  by (auto simp: round_even_def Let_def)

lemma round_even_eqI: "\<bar>y - of_int k\<bar> < 1 / 2 \<Longrightarrow> round_even y = k"
proof -
  assume a: "\<bar>y - of_int k\<bar> < 1 / 2"
  show ?thesis
  proof (cases "of_int k \<le> y")
    case True
    then have "\<lfloor>y\<rfloor> = k" using a by (intro floor_unique) auto
    then show ?thesis using a True by (simp add: round_even_def Let_def)
  next
    case False
    then have "\<lfloor>y\<rfloor> = k - 1" using a by (intro floor_unique) auto
    then show ?thesis using a False by (simp add: round_even_def Let_def)
  qed
qed

lemma ulp_pos: "0 < ulp a"
  by (simp add: ulp_def)

lemma fl_half_ulp: "\<bar>fl a - a\<bar> \<le> ulp a / 2"
proof (cases "a = 0")
  case True
  then show ?thesis using ulp_pos[of a] by (simp add: fl_def)
next
  case False
  have "\<bar>of_int (round_even (a / ulp a)) - a / ulp a\<bar> \<le> 1 / 2"
    by (rule round_even_error)
  then have "\<bar>of_int (round_even (a / ulp a)) - a / ulp a\<bar> * ulp a \<le> 1 / 2 * ulp a"
    using ulp_pos[of a] by (intro mult_right_mono) auto
  moreover have "\<bar>of_int (round_even (a / ulp a)) - a / ulp a\<bar> * ulp a
      = \<bar>of_int (round_even (a / ulp a)) * ulp a - a\<bar>"
  proof -
    have "\<bar>of_int (round_even (a / ulp a)) - a / ulp a\<bar> * ulp a
      = \<bar>(of_int (round_even (a / ulp a)) - a / ulp a) * ulp a\<bar>"
      using ulp_pos[of a] by (simp add: abs_mult)
    also have "(of_int (round_even (a / ulp a)) - a / ulp a) * ulp a
      = of_int (round_even (a / ulp a)) * ulp a - a"
      using ulp_pos[of a] by (simp add: left_diff_distrib)
    finally show ?thesis .
  qed
  ultimately show ?thesis using False by (simp add: fl_def)
qed

lemma half_ulp_bound: "a \<noteq> 0 \<Longrightarrow> ulp a / 2 \<le> \<bar>a\<bar> / 2 ^ 53 + 1 / 2 ^ 1075"
proof -
  assume a: "a \<noteq> 0"
  let ?k = "\<lfloor>log 2 \<bar>a\<bar>\<rfloor>"
  show ?thesis
  proof (cases "?k \<ge> - 1022")
    case True
    have "2 powr (of_int ?k) \<le> \<bar>a\<bar>"
      using floor_log_eq_powr_iff[of "\<bar>a\<bar>" 2 ?k] a by simp
    moreover have "binade a = ?k"
      unfolding binade_def using True by (rule max_absorb1)
    then have "ulp a / 2 = 2 powr (of_int ?k) / 2 ^ 53"
      by (simp add: ulp_def powr_diff powr_numeral)
    ultimately show ?thesis
      by (simp add: divide_right_mono add_increasing2)
  next
    case False
    then have "ulp a = 2 powr (- 1074)"
      by (simp add: ulp_def binade_def max_def)
    then have "ulp a / 2 = 1 / 2 ^ 1075"
      by (simp add: powr_minus powr_numeral field_simps)
    then show ?thesis by (simp add: add_increasing)
  qed
qed

lemma fl_error: "\<bar>fl a - a\<bar> \<le> \<bar>a\<bar> / 2 ^ 53 + 1 / 2 ^ 1075"
proof (cases "a = 0")
  case True
  then show ?thesis by (simp add: fl_def)
next
  case False
  from fl_half_ulp[of a] half_ulp_bound[OF False] show ?thesis by linarith
qed

lemma fl_nonneg: "0 \<le> a \<Longrightarrow> 0 \<le> fl a"
  using ulp_pos[of a] round_even_nonneg[of "a / ulp a"]
  by (simp add: fl_def)

lemma fl_zero: "fl 0 = 0" by (simp add: fl_def)

text \<open>
  Evaluation: a number in the binade from \<open>2 ^ 52 / 2 ^ n\<close> that is less than half a
  unit from \<open>k / 2 ^ n\<close> rounds to it; at exactly half a unit the even \<open>k\<close> wins.
\<close>

lemma fl_near:
  fixes n :: nat
  assumes n: "n \<le> 1074"
    and lo: "2 ^ 52 / 2 ^ n \<le> \<bar>a\<bar>" and hi: "\<bar>a\<bar> < 2 ^ 53 / 2 ^ n"
    and near: "\<bar>a * 2 ^ n - of_int k\<bar> < 1 / 2"
  shows "fl a = of_int k / 2 ^ n"
proof -
  have a0: "a \<noteq> 0" using lo by (auto simp: field_simps)
  have p: "(2::real) powr (of_int (52 - int n)) = 2 ^ 52 / 2 ^ n"
    by (simp add: powr_diff powr_realpow powr_numeral)
  have p1: "(2::real) powr (of_int (52 - int n + 1)) = 2 ^ 53 / 2 ^ n"
    by (simp add: powr_diff powr_add powr_realpow powr_numeral)
  have "\<lfloor>log 2 \<bar>a\<bar>\<rfloor> = 52 - int n"
    using floor_log_eq_powr_iff[of "\<bar>a\<bar>" 2 "52 - int n"] a0 lo hi p p1 by simp
  then have "binade a = 52 - int n"
    using n by (simp add: binade_def)
  then have "ulp a = 2 powr (- real n)"
    by (simp add: ulp_def)
  then have u: "ulp a = 1 / 2 ^ n"
    by (simp add: powr_minus powr_realpow inverse_eq_divide)
  have "round_even (a / ulp a) = k"
    using near by (intro round_even_eqI) (simp add: u)
  then show ?thesis using a0 by (simp add: fl_def u)
qed

lemma round_even_tie_up: "y = of_int k - 1 / 2 \<Longrightarrow> even k \<Longrightarrow> round_even y = k"
proof -
  assume y: "y = of_int k - 1 / 2" and k: "even k"
  have f: "\<lfloor>y\<rfloor> = k - 1" using y by (intro floor_unique) auto
  have "odd (k - 1)" using k by simp
  then show ?thesis using y f by (simp add: round_even_def Let_def)
qed

lemma fl_tie_up:
  fixes n :: nat
  assumes n: "n \<le> 1074"
    and lo: "2 ^ 52 / 2 ^ n \<le> \<bar>a\<bar>" and hi: "\<bar>a\<bar> < 2 ^ 53 / 2 ^ n"
    and tie: "a * 2 ^ n = of_int k - 1 / 2" and k: "even k"
  shows "fl a = of_int k / 2 ^ n"
proof -
  have a0: "a \<noteq> 0" using lo by (auto simp: field_simps)
  have p: "(2::real) powr (of_int (52 - int n)) = 2 ^ 52 / 2 ^ n"
    by (simp add: powr_diff powr_realpow powr_numeral)
  have p1: "(2::real) powr (of_int (52 - int n + 1)) = 2 ^ 53 / 2 ^ n"
    by (simp add: powr_diff powr_add powr_realpow powr_numeral)
  have "\<lfloor>log 2 \<bar>a\<bar>\<rfloor> = 52 - int n"
    using floor_log_eq_powr_iff[of "\<bar>a\<bar>" 2 "52 - int n"] a0 lo hi p p1 by simp
  then have "binade a = 52 - int n"
    using n by (simp add: binade_def)
  then have "ulp a = 2 powr (- real n)"
    by (simp add: ulp_def)
  then have u: "ulp a = 1 / 2 ^ n"
    by (simp add: powr_minus powr_realpow inverse_eq_divide)
  have "round_even (a / ulp a) = k"
    using tie k by (intro round_even_tie_up) (simp add: u)
  then show ?thesis using a0 by (simp add: fl_def u)
qed

lemma fl_nonpos: "a \<le> 0 \<Longrightarrow> fl a \<le> 0"
proof -
  assume a: "a \<le> 0"
  have "round_even y \<le> 0" if "y \<le> 0" for y
  proof -
    have f: "\<lfloor>y\<rfloor> \<le> 0" using that by linarith
    show ?thesis
    proof (cases "\<lfloor>y\<rfloor> = 0")
      case True
      then have "y = 0" using that by linarith
      then show ?thesis by (simp add: round_even_def)
    next
      case False
      then have "\<lfloor>y\<rfloor> + 1 \<le> 0" using f by linarith
      then show ?thesis using f by (auto simp: round_even_def Let_def)
    qed
  qed
  from this[of "a / ulp a"] a ulp_pos[of a] show ?thesis
    by (simp add: fl_def divide_nonpos_pos mult_nonpos_nonneg)
qed

lemma fl_err: "\<bar>fl a - a\<bar> \<le> \<bar>a\<bar> / 2 ^ 53 + 1 / 2 ^ 200"
proof -
  have "(1::real) / 2 ^ 1075 \<le> 1 / 2 ^ 200" by simp
  with fl_error[of a] show ?thesis by linarith
qed

lemma fl_sqrt_near:
  fixes n :: nat and k :: int
  assumes n: "n \<le> 1074" and k: "2 ^ 52 < k" "k < 2 ^ 53"
    and lo: "((of_int k - 1 / 2) / 2 ^ n) * ((of_int k - 1 / 2) / 2 ^ n) < Q"
    and hi: "Q < ((of_int k + 1 / 2) / 2 ^ n) * ((of_int k + 1 / 2) / 2 ^ n)"
  shows "fl (sqrt Q) = of_int k / 2 ^ n"
proof (rule fl_near[OF n])
  have "2 ^ 52 + 1 \<le> k" "k \<le> 2 ^ 53 - 1" using k by simp_all
  then have "of_int (2 ^ 52 + 1) \<le> (of_int k :: real)" "(of_int k :: real) \<le> of_int (2 ^ 53 - 1)"
    by (simp_all only: of_int_le_iff)
  then have kr: "4503599627370497 \<le> (of_int k :: real)" "(of_int k :: real) \<le> 9007199254740991"
    by simp_all
  have p: "(0::real) < 2 ^ n" by simp
  have l: "(of_int k - 1 / 2) / 2 ^ n < sqrt Q"
    by (rule real_less_rsqrt) (use lo in \<open>simp add: power2_eq_square\<close>)
  have hn: "0 \<le> (of_int k + 1 / 2) / (2 ^ n :: real)"
    using kr by (intro divide_nonneg_pos) simp_all
  have h: "sqrt Q < (of_int k + 1 / 2) / 2 ^ n"
    using hn by (rule real_less_lsqrt) (use hi in \<open>simp add: power2_eq_square\<close>)
  have l2: "of_int k - 1 / 2 < sqrt Q * 2 ^ n"
    using l p by (simp add: pos_divide_less_eq)
  have h2: "sqrt Q * 2 ^ n < of_int k + 1 / 2"
    using h p by (simp add: pos_less_divide_eq)
  show "\<bar>sqrt Q * 2 ^ n - of_int k\<bar> < 1 / 2"
    using l2 h2 by linarith
  have pos: "0 < sqrt Q * 2 ^ n" using l2 kr by linarith
  then have sq: "0 < sqrt Q" using p by (simp add: zero_less_mult_iff)
  have "4503599627370496 \<le> sqrt Q * 2 ^ n" using l2 kr by linarith
  then have "2 ^ 52 \<le> sqrt Q * 2 ^ n" by simp
  then show "2 ^ 52 / 2 ^ n \<le> \<bar>sqrt Q\<bar>"
    using p sq by (simp add: pos_divide_le_eq)
  have "sqrt Q * 2 ^ n < 9007199254740992" using h2 kr by linarith
  then have "sqrt Q * 2 ^ n < 2 ^ 53" by simp
  then show "\<bar>sqrt Q\<bar> < 2 ^ 53 / 2 ^ n"
    using p sq by (simp add: pos_less_divide_eq)
qed

text \<open>Numbers that are binary64 numbers as they stand, and one tenth, which is not.\<close>

lemma fl_150: "fl 150 = 150"
  using fl_near[of 45 150 "150 * 2 ^ 45"] by simp

lemma fl_minus_2: "fl (- 2) = - 2"
  using fl_near[of 51 "- 2" "- (2 * 2 ^ 51)"] by simp

lemma fl_3: "fl 3 = 3"
  using fl_near[of 51 3 "3 * 2 ^ 51"] by simp

lemma fl_9: "fl 9 = 9"
  using fl_near[of 49 9 "9 * 2 ^ 49"] by simp

lemma fl_16: "fl (16) = 16"
  using fl_near[of 48 "16" "4503599627370496"] by simp

lemma fl_tenth: "fl (1 / 10) = 3602879701896397 / 36028797018963968"
  using fl_near[of 56 "1 / 10" "7205759403792794"] by simp

section \<open>Steps of linear arithmetic\<close>

text \<open>
  The error analysis below needs inequalities between rational multiples of a few
  quantities. They are collected here, each over plain real variables; \<open>1 / 2 ^ 53\<close> is
  the unit roundoff, and \<open>1 / 2 ^ 200\<close> stands for the absolute error of a result in the
  subnormal range, which is at most \<open>1 / 2 ^ 1075\<close>.
\<close>

lemma ar_unlimited:
  fixes N2 S M2 mm :: real
  assumes "(1 - 1 / 2 ^ 53) * (1 - 1 / 2 ^ 53) * N2 \<le> S + 3 / 2 ^ 200"
    and "S \<le> M2" and "M2 \<le> mm + mm / 2 ^ 53 + 1 / 2 ^ 200" and "1 / 2 ^ 20 \<le> mm"
  shows "N2 \<le> (1 + 1 / 2 ^ 50) * (1 + 1 / 2 ^ 50) * mm"
  using assms by (simp; argo)

lemma ar_S22:
  fixes S M2 mm :: real
  assumes "M2 < S" and "mm - mm / 2 ^ 53 - 1 / 2 ^ 200 \<le> M2" and "1 / 2 ^ 20 \<le> mm"
  shows "1 / 2 ^ 22 \<le> S"
  using assms by (simp; argo)

lemma ar_s2:
  fixes R s :: real
  assumes "R - R / 2 ^ 53 - 1 / 2 ^ 200 \<le> s" and "1 / 2 ^ 11 \<le> R"
  shows "(1 - 1 / 2 ^ 53 - 1 / 2 ^ 189) * R \<le> s" and "0 < s"
  using assms by (simp; argo)+

lemma ar_N2S:
  fixes N2 S :: real
  assumes "(1 - 1 / 2 ^ 53) * (1 - 1 / 2 ^ 53) * N2 \<le> S + 3 / 2 ^ 200" and "1 / 2 ^ 22 \<le> S"
  shows "N2 \<le> (1 + 2 / 2 ^ 53) * (1 + 2 / 2 ^ 53) * S"
  using assms by (simp; argo)

lemma ar_Ns:
  fixes N R s :: real
  assumes "N \<le> (1 + 2 / 2 ^ 53) * R" and "(1 - 1 / 2 ^ 53 - 1 / 2 ^ 189) * R \<le> s"
    and "0 \<le> R"
  shows "N \<le> (1 + 4 / 2 ^ 53) * s"
  using assms by (simp; argo)

lemma ar_D:
  fixes D q :: real
  assumes "D \<le> (1 + 1 / 2 ^ 53) * q + 2 / 2 ^ 200" and "q \<le> 1 + 4 / 2 ^ 53"
  shows "D \<le> 1 + 6 / 2 ^ 53"
  using assms by (simp; argo)

lemma ar_out:
  fixes out mD m :: real
  assumes "out \<le> (1 + 1 / 2 ^ 53) * mD + 2 / 2 ^ 200" and "mD \<le> m * (1 + 6 / 2 ^ 53)"
    and "1 / 1024 \<le> m"
  shows "out \<le> m * (1 + 1 / 2 ^ 50)"
  using assms by (simp; argo)

lemma ar_seek:
  fixes out L F st :: real
  assumes "out \<le> (1 + 1 / 2 ^ 53) * (st * L) + 2 / 2 ^ 200" and "st * L \<le> st * (F * (1 + 1 / 2 ^ 50))"
    and "1 / 4096 \<le> st * F"
  shows "out \<le> st * F * (1 + 1 / 2 ^ 49)"
  using assms by (simp; argo)

lemma ar_tiny:
  fixes R s :: real
  assumes "R - R / 2 ^ 53 - 1 / 2 ^ 200 \<le> s" and "s \<le> 0"
  shows "R \<le> 1 / 2 ^ 199"
  using assms by (simp; argo)

lemma ar_tiny2:
  fixes N2 S :: real
  assumes "(1 - 1 / 2 ^ 53) * (1 - 1 / 2 ^ 53) * N2 \<le> S + 3 / 2 ^ 200" and "S \<le> 1 / 2 ^ 398"
  shows "N2 \<le> (1 / 2 ^ 98) * (1 / 2 ^ 98)"
  using assms by (simp; argo)

lemma ar_magd1:
  fixes R N :: real
  assumes "R \<le> (1 + 1 / 2 ^ 53) * N + 2 / 2 ^ 100" and "s \<le> R + R / 2 ^ 53 + 1 / 2 ^ 200"
    and "N \<le> B" and "1 / 4096 \<le> B"
  shows "s \<le> B * (1 + 1 / 2 ^ 51)"
  using assms by (simp; argo)

lemma ar_within:
  fixes x B :: real
  assumes "x \<le> B * (1 + 1 / 2 ^ 49)" and "1 / 4096 \<le> B"
  shows "x \<le> B * (1 + 1 / 2 ^ 48)"
  using assms by (simp; argo)

lemma ar_within2:
  fixes x B :: real
  assumes "x \<le> B * (1 + 1 / 2 ^ 49) * (1 + 1 / 2 ^ 51)" and "1 / 4096 \<le> B"
  shows "x \<le> B * (1 + 1 / 2 ^ 48)"
  using assms by (simp; argo)

lemma ar_pos49:
  fixes B :: real
  assumes "1 / 4096 \<le> B"
  shows "1 / 4096 \<le> B * (1 + 1 / 2 ^ 49)"
  using assms by (simp; argo)

lemma ar_50_49:
  fixes x B :: real
  assumes "x \<le> B * (1 + 1 / 2 ^ 50)" and "1 / 1024 \<le> B"
  shows "x \<le> B * (1 + 1 / 2 ^ 49)" and "1 / 4096 \<le> B"
  using assms by (simp; argo)+

lemma ar_map:
  fixes d t1 t3 t5 t6 :: real
  assumes "0 \<le> d" and "d < 150"
    and "0 \<le> t1" and "t1 \<le> d + d / 2 ^ 53 + 1 / 2 ^ 200"
    and "0 \<le> t3" and "t3 \<le> t1 / 150 + (t1 / 150) / 2 ^ 53 + 1 / 2 ^ 200"
    and "t5 \<le> 0" and "t3 * (- 2) - (t3 * 2) / 2 ^ 53 - 1 / 2 ^ 200 \<le> t5"
    and "\<bar>t6 - (t5 + 5 / 2)\<bar> \<le> \<bar>t5 + 5 / 2\<bar> / 2 ^ 53 + 1 / 2 ^ 200"
  shows "1 / 4 \<le> t6" and "t6 \<le> 5 / 2 * (1 + 1 / 2 ^ 51)"
  using assms by (simp; argo)+

lemma ar_attr:
  fixes x st F :: real
  assumes "x \<le> st * F * (1 + 1 / 2 ^ 49)" and "stF \<le> 5 / 2 * (1 + 1 / 2 ^ 51) * F"
    and "st * F = stF" and "1 / 1024 \<le> F"
  shows "x \<le> 5 / 2 * F * (1 + 1 / 2 ^ 48)" and "1 / 4096 \<le> 5 / 2 * F"
  using assms by (simp; argo)+

lemma ar_within47:
  fixes x B :: real
  assumes "x \<le> B * (1 + 1 / 2 ^ 48)" and "1 / 4096 \<le> B"
  shows "x \<le> B * (1 + 1 / 2 ^ 47)" and "1 / 4096 \<le> B * (1 + 1 / 2 ^ 48)"
  using assms by (simp; argo)+

lemma ar_within47b:
  fixes x B :: real
  assumes "x \<le> B * (1 + 1 / 2 ^ 48) * (1 + 1 / 2 ^ 51)" and "1 / 4096 \<le> B"
  shows "x \<le> B * (1 + 1 / 2 ^ 47)"
  using assms by (simp; argo)

section \<open>Rounding errors of the vector operations\<close>

lemma mag_v_sqrt: "mag_v v = sqrt ((vx v)\<^sup>2 + (vy v)\<^sup>2)"
  by (simp add: mag_v_def magSq_v_def power2_eq_square)

lemma sqrt_sum_squares_scale: "sqrt ((k * a)\<^sup>2 + (k * b)\<^sup>2) = \<bar>k\<bar> * sqrt (a\<^sup>2 + b\<^sup>2)"
proof -
  have "(k * a)\<^sup>2 + (k * b)\<^sup>2 = k\<^sup>2 * (a\<^sup>2 + b\<^sup>2)"
    by (simp add: power2_eq_square algebra_simps)
  then show ?thesis by (simp add: real_sqrt_mult)
qed

lemma mag_perturb:
  assumes a: "\<bar>a' - a\<bar> \<le> r * \<bar>a\<bar> + h" and b: "\<bar>b' - b\<bar> \<le> r * \<bar>b\<bar> + h"
    and r: "0 \<le> r" and h: "0 \<le> h"
  shows "sqrt (a'\<^sup>2 + b'\<^sup>2) \<le> (1 + r) * sqrt (a\<^sup>2 + b\<^sup>2) + 2 * h"
proof -
  have 1: "sqrt (a'\<^sup>2 + b'\<^sup>2) \<le> sqrt (a\<^sup>2 + b\<^sup>2) + sqrt ((a' - a)\<^sup>2 + (b' - b)\<^sup>2)"
    using real_sqrt_sum_squares_triangle_ineq[of a "a' - a" b "b' - b"] by simp
  have sq: "x\<^sup>2 \<le> y\<^sup>2" if "\<bar>x\<bar> \<le> y" for x y :: real
    using that by (simp add: abs_le_square_iff[symmetric])
  have 2: "sqrt ((a' - a)\<^sup>2 + (b' - b)\<^sup>2) \<le> sqrt ((r * \<bar>a\<bar> + h)\<^sup>2 + (r * \<bar>b\<bar> + h)\<^sup>2)"
    by (intro real_sqrt_le_mono add_mono sq a b)
  have 3: "sqrt ((r * \<bar>a\<bar> + h)\<^sup>2 + (r * \<bar>b\<bar> + h)\<^sup>2)
      \<le> sqrt ((r * \<bar>a\<bar>)\<^sup>2 + (r * \<bar>b\<bar>)\<^sup>2) + sqrt (h\<^sup>2 + h\<^sup>2)"
    by (rule real_sqrt_sum_squares_triangle_ineq)
  have 4: "sqrt ((r * \<bar>a\<bar>)\<^sup>2 + (r * \<bar>b\<bar>)\<^sup>2) = r * sqrt (a\<^sup>2 + b\<^sup>2)"
    using r by (simp add: sqrt_sum_squares_scale)
  have 5: "sqrt (h\<^sup>2 + h\<^sup>2) \<le> 2 * h"
  proof (rule real_le_lsqrt)
    show "0 \<le> 2 * h" using h by simp
    have "0 \<le> h * h" by simp
    then show "h\<^sup>2 + h\<^sup>2 \<le> (2 * h)\<^sup>2" by (simp add: power2_eq_square)
  qed
  from 1 2 3 4 5
  have "sqrt (a'\<^sup>2 + b'\<^sup>2) \<le> sqrt (a\<^sup>2 + b\<^sup>2) + (r * sqrt (a\<^sup>2 + b\<^sup>2) + 2 * h)"
    by linarith
  then show ?thesis by (simp add: algebra_simps)
qed

lemma mag_mult_d:
  "mag_v (mult_d v n) \<le> (1 + 1 / 2 ^ 53) * (\<bar>n\<bar> * mag_v v) + 2 / 2 ^ 200"
proof -
  have "sqrt ((fl (vx v * n))\<^sup>2 + (fl (vy v * n))\<^sup>2)
      \<le> (1 + 1 / 2 ^ 53) * sqrt ((vx v * n)\<^sup>2 + (vy v * n)\<^sup>2) + 2 * (1 / 2 ^ 200)"
    by (rule mag_perturb) (use fl_err[of "vx v * n"] fl_err[of "vy v * n"] in auto)
  moreover have "sqrt ((vx v * n)\<^sup>2 + (vy v * n)\<^sup>2) = \<bar>n\<bar> * sqrt ((vx v)\<^sup>2 + (vy v)\<^sup>2)"
    using sqrt_sum_squares_scale[of n "vx v" "vy v"] by (simp add: mult.commute)
  ultimately show ?thesis
    by (simp add: mag_v_sqrt mult_d_def)
qed

lemma mag_div_d:
  assumes "n \<noteq> 0"
  shows "mag_v (div_d v n) \<le> (1 + 1 / 2 ^ 53) * (mag_v v / \<bar>n\<bar>) + 2 / 2 ^ 200"
proof -
  have "sqrt ((fl (vx v / n))\<^sup>2 + (fl (vy v / n))\<^sup>2)
      \<le> (1 + 1 / 2 ^ 53) * sqrt ((vx v / n)\<^sup>2 + (vy v / n)\<^sup>2) + 2 * (1 / 2 ^ 200)"
    by (rule mag_perturb) (use fl_err[of "vx v / n"] fl_err[of "vy v / n"] in auto)
  moreover have "sqrt ((vx v / n)\<^sup>2 + (vy v / n)\<^sup>2) = sqrt ((vx v)\<^sup>2 + (vy v)\<^sup>2) / \<bar>n\<bar>"
    using sqrt_sum_squares_scale[of "1 / n" "vx v" "vy v"] by (simp add: field_simps)
  ultimately show ?thesis
    using assms by (simp add: mag_v_sqrt div_d_def)
qed

lemma magSq_d_nonneg: "0 \<le> magSq_d v"
  by (simp add: magSq_d_def fl_nonneg)

lemma magSq_d_lower:
  "(1 - 1 / 2 ^ 53) * (1 - 1 / 2 ^ 53) * magSq_v v \<le> magSq_d v + 3 / 2 ^ 200"
proof -
  let ?A = "fl (vx v * vx v)" and ?B = "fl (vy v * vy v)"
  have A: "vx v * vx v - (vx v * vx v) / 2 ^ 53 - 1 / 2 ^ 200 \<le> ?A"
    using fl_err[of "vx v * vx v"] by (simp add: abs_le_iff abs_mult_self_eq)
  have B: "vy v * vy v - (vy v * vy v) / 2 ^ 53 - 1 / 2 ^ 200 \<le> ?B"
    using fl_err[of "vy v * vy v"] by (simp add: abs_le_iff)
  have nn: "0 \<le> ?A" "0 \<le> ?B" by (simp_all add: fl_nonneg)
  have S: "(?A + ?B) - (?A + ?B) / 2 ^ 53 - 1 / 2 ^ 200 \<le> magSq_d v"
    using fl_err[of "?A + ?B"] nn by (simp add: magSq_d_def abs_le_iff)
  from A B S show ?thesis
    by (simp add: magSq_v_def; argo)
qed

lemma magSq_d_upper:
  "magSq_d v \<le> (1 + 1 / 2 ^ 53) * (1 + 1 / 2 ^ 53) * magSq_v v + 4 / 2 ^ 200"
proof -
  let ?A = "fl (vx v * vx v)" and ?B = "fl (vy v * vy v)"
  have A: "?A \<le> vx v * vx v + (vx v * vx v) / 2 ^ 53 + 1 / 2 ^ 200"
    using fl_err[of "vx v * vx v"] by (simp add: abs_le_iff)
  have B: "?B \<le> vy v * vy v + (vy v * vy v) / 2 ^ 53 + 1 / 2 ^ 200"
    using fl_err[of "vy v * vy v"] by (simp add: abs_le_iff)
  have nn: "0 \<le> ?A" "0 \<le> ?B" by (simp_all add: fl_nonneg)
  have S: "magSq_d v \<le> (?A + ?B) + (?A + ?B) / 2 ^ 53 + 1 / 2 ^ 200"
    using fl_err[of "?A + ?B"] nn by (simp add: magSq_d_def abs_le_iff)
  from A B S show ?thesis
    by (simp add: magSq_v_def; argo)
qed

lemma mag_v_square: "mag_v v * mag_v v = magSq_v v"
  by (simp add: mag_v_def magSq_nonneg)

lemma le_of_square_le: "0 \<le> y \<Longrightarrow> x * x \<le> y * y \<Longrightarrow> x \<le> (y::real)"
  using power2_le_imp_le[of x y] by (simp add: power2_eq_square)

lemma square_scale: "(k * x) * (k * x) = k * k * (x * (x::real))"
  by (simp add: mult_ac)

text \<open>
  \<^verbatim>\<open>limit(m)\<close> in double precision: the length of the result is at most \<open>m\<close> up to a
  relative excess of \<open>1 / 2 ^ 50\<close>. Without rescaling, the computed square of the length is at
  most the computed \<open>m * m\<close>; with rescaling, the division by the computed length and the
  multiplication by \<open>m\<close> each round.
\<close>

lemma mag_limit_d:
  assumes m: "1 / 1024 \<le> m"
  shows "mag_v (limit_d v m) \<le> m * (1 + 1 / 2 ^ 50)"
proof -
  let ?S = "magSq_d v" and ?N = "mag_v v" and ?M2 = "fl (m * m)"
  have m0: "0 \<le> m" using m by simp
  have mm: "1 / 2 ^ 20 \<le> m * m"
    using mult_mono[of "1 / 1024" m "1 / 1024" m] m by simp
  have M2: "m * m - (m * m) / 2 ^ 53 - 1 / 2 ^ 200 \<le> ?M2"
      "?M2 \<le> m * m + (m * m) / 2 ^ 53 + 1 / 2 ^ 200"
    using fl_err[of "m * m"] by (simp_all add: abs_le_iff)
  have low: "(1 - 1 / 2 ^ 53) * (1 - 1 / 2 ^ 53) * magSq_v v \<le> ?S + 3 / 2 ^ 200"
    by (rule magSq_d_lower)
  show ?thesis
  proof (cases "?S > ?M2")
    case False
    then have S: "?S \<le> ?M2" by simp
    have "magSq_v v \<le> (1 + 1 / 2 ^ 50) * (1 + 1 / 2 ^ 50) * (m * m)"
      using low S M2(2) mm by (rule ar_unlimited)
    then have sq: "?N * ?N \<le> ((1 + 1 / 2 ^ 50) * m) * ((1 + 1 / 2 ^ 50) * m)"
      by (simp only: mag_v_square square_scale[of "1 + 1 / 2 ^ 50" m])
    have "0 \<le> (1 + 1 / 2 ^ 50) * m"
      using m0 by simp
    then have "?N \<le> (1 + 1 / 2 ^ 50) * m"
      using sq by (rule le_of_square_le)
    then have "mag_v v \<le> m * (1 + 1 / 2 ^ 50)"
      by (simp only: mult.commute)
    then show ?thesis using False by (simp only: limit_d_def Let_def if_False)
  next
    case True
    let ?R = "sqrt ?S"
    let ?s = "fl ?R"
    have S22: "1 / 2 ^ 22 \<le> ?S"
      using True M2(1) mm by (rule ar_S22)
    have S0: "0 \<le> ?S" by (rule magSq_d_nonneg)
    have RR: "?R * ?R = ?S" using S0 by simp
    have R0: "0 \<le> ?R" using S0 by simp
    have R11: "1 / 2 ^ 11 \<le> ?R"
      by (rule real_le_rsqrt) (use S22 in \<open>simp add: power2_eq_square\<close>)
    have s1: "?R - ?R / 2 ^ 53 - 1 / 2 ^ 200 \<le> ?s"
      using fl_err[of ?R] R0 by (simp add: abs_le_iff)
    have s2: "(1 - 1 / 2 ^ 53 - 1 / 2 ^ 189) * ?R \<le> ?s" and spos: "0 < ?s"
      using s1 R11 by (rule ar_s2)+
    have "magSq_v v \<le> (1 + 2 / 2 ^ 53) * (1 + 2 / 2 ^ 53) * ?S"
      using low S22 by (rule ar_N2S)
    then have sq: "?N * ?N \<le> ((1 + 2 / 2 ^ 53) * ?R) * ((1 + 2 / 2 ^ 53) * ?R)"
      by (simp only: mag_v_square square_scale[of "1 + 2 / 2 ^ 53" ?R] RR)
    have "0 \<le> (1 + 2 / 2 ^ 53) * ?R"
      using R0 by simp
    then have NR: "?N \<le> (1 + 2 / 2 ^ 53) * ?R"
      using sq by (rule le_of_square_le)
    have "?N \<le> (1 + 4 / 2 ^ 53) * ?s"
      using NR s2 R0 by (rule ar_Ns)
    then have Ns: "?N / ?s \<le> 1 + 4 / 2 ^ 53"
      using spos by (simp only: pos_divide_le_eq)
    let ?D = "div_d v ?s"
    have sa: "\<bar>?s\<bar> = ?s" using spos by simp
    have "?s \<noteq> 0" using spos by simp
    then have "mag_v ?D \<le> (1 + 1 / 2 ^ 53) * (?N / \<bar>?s\<bar>) + 2 / 2 ^ 200"
      by (rule mag_div_d)
    then have "mag_v ?D \<le> (1 + 1 / 2 ^ 53) * (?N / ?s) + 2 / 2 ^ 200"
      unfolding sa .
    then have D: "mag_v ?D \<le> 1 + 6 / 2 ^ 53"
      using Ns by (rule ar_D)
    have mD: "m * mag_v ?D \<le> m * (1 + 6 / 2 ^ 53)"
      using D m0 by (rule mult_left_mono)
    have ma: "\<bar>m\<bar> = m" using m0 by simp
    have "mag_v (mult_d ?D m) \<le> (1 + 1 / 2 ^ 53) * (\<bar>m\<bar> * mag_v ?D) + 2 / 2 ^ 200"
      by (rule mag_mult_d)
    then have "mag_v (mult_d ?D m) \<le> (1 + 1 / 2 ^ 53) * (m * mag_v ?D) + 2 / 2 ^ 200"
      unfolding ma .
    then have "mag_v (mult_d ?D m) \<le> m * (1 + 1 / 2 ^ 50)"
      using mD m by (rule ar_out)
    then show ?thesis using True by (simp only: limit_d_def Let_def if_True)
  qed
qed

lemma mag_d_nonneg: "0 \<le> mag_d v"
  by (simp add: mag_d_def fl_nonneg magSq_d_nonneg)

lemma dist_d_nonneg: "0 \<le> dist_d v w"
  by (simp add: dist_d_def mag_d_nonneg)

lemma mag_d_upper:
  assumes N: "mag_v w \<le> B" and B: "1 / 4096 \<le> B"
  shows "mag_d w \<le> B * (1 + 1 / 2 ^ 51)"
proof -
  let ?S = "magSq_d w" and ?N = "mag_v w"
  have S0: "0 \<le> ?S" by (rule magSq_d_nonneg)
  have N0: "0 \<le> ?N" by (rule mag_nonneg)
  have up: "?S \<le> (1 + 1 / 2 ^ 53) * (1 + 1 / 2 ^ 53) * magSq_v w + 4 / 2 ^ 200"
    by (rule magSq_d_upper)
  have e1: "(1 + 1 / 2 ^ 53) * (1 + 1 / 2 ^ 53) * magSq_v w = ((1 + 1 / 2 ^ 53) * ?N)\<^sup>2"
    by (simp only: power2_eq_square square_scale[of "1 + 1 / 2 ^ 53" "mag_v w"] mag_v_square)
  have e2: "(4::real) / 2 ^ 200 = (2 / 2 ^ 100)\<^sup>2"
    by (simp add: power2_eq_square)
  have "sqrt ?S \<le> sqrt (((1 + 1 / 2 ^ 53) * ?N)\<^sup>2 + (2 / 2 ^ 100)\<^sup>2)"
    using up unfolding e1 e2 by (rule real_sqrt_le_mono)
  also have "\<dots> \<le> sqrt (((1 + 1 / 2 ^ 53) * ?N)\<^sup>2) + sqrt ((2 / 2 ^ 100)\<^sup>2)"
    by (rule sqrt_add_le_add_sqrt) simp_all
  also have "\<dots> = (1 + 1 / 2 ^ 53) * ?N + 2 / 2 ^ 100"
    using N0 by (simp only: real_sqrt_abs) simp
  finally have R: "sqrt ?S \<le> (1 + 1 / 2 ^ 53) * ?N + 2 / 2 ^ 100" .
  have "0 \<le> sqrt ?S" using S0 by simp
  then have s: "fl (sqrt ?S) \<le> sqrt ?S + sqrt ?S / 2 ^ 53 + 1 / 2 ^ 200"
    using fl_err[of "sqrt ?S"] by (simp add: abs_le_iff)
  from R s N B show ?thesis
    unfolding mag_d_def by (rule ar_magd1)
qed

lemma within_of_bound:
  assumes N: "mag_v w \<le> B * (1 + 1 / 2 ^ 49)" and B: "1 / 4096 \<le> B"
  shows "magnitude_within w (B * (1 + 1 / 2 ^ 48))"
proof -
  have 1: "mag_v w \<le> B * (1 + 1 / 2 ^ 48)" using N B by (rule ar_within)
  have "mag_d w \<le> B * (1 + 1 / 2 ^ 49) * (1 + 1 / 2 ^ 51)"
    using N ar_pos49[OF B] by (rule mag_d_upper)
  then have 2: "mag_d w \<le> B * (1 + 1 / 2 ^ 48)" using B by (rule ar_within2)
  from 1 2 show ?thesis by (simp add: magnitude_within_def)
qed

lemma within_of_bound47:
  assumes N: "mag_v w \<le> B * (1 + 1 / 2 ^ 48)" and B: "1 / 4096 \<le> B"
  shows "magnitude_within w (B * (1 + 1 / 2 ^ 47))"
proof -
  have 1: "mag_v w \<le> B * (1 + 1 / 2 ^ 47)" using N B by (rule ar_within47(1))
  have "mag_d w \<le> B * (1 + 1 / 2 ^ 48) * (1 + 1 / 2 ^ 51)"
    using N ar_within47(2)[OF N B] by (rule mag_d_upper)
  then have 2: "mag_d w \<le> B * (1 + 1 / 2 ^ 47)" using B by (rule ar_within47b)
  from 1 2 show ?thesis by (simp add: magnitude_within_def)
qed

lemma within_limit:
  assumes N: "mag_v w \<le> F * (1 + 1 / 2 ^ 50)" and F: "1 / 1024 \<le> F"
  shows "magnitude_within w (F * (1 + 1 / 2 ^ 48))"
  using ar_50_49[OF N F] by (rule within_of_bound)

lemma mag_d_zero_small:
  assumes "\<not> mag_d v > 0"
  shows "mag_v v \<le> 1 / 2 ^ 98"
proof -
  let ?S = "magSq_d v" and ?R = "sqrt (magSq_d v)"
  have S0: "0 \<le> ?S" by (rule magSq_d_nonneg)
  have R0: "0 \<le> ?R" using S0 by simp
  have "?R - ?R / 2 ^ 53 - 1 / 2 ^ 200 \<le> fl ?R"
    using fl_err[of ?R] R0 by (simp add: abs_le_iff)
  moreover have "fl ?R \<le> 0" using assms by (simp add: mag_d_def)
  ultimately have R: "?R \<le> 1 / 2 ^ 199" by (rule ar_tiny)
  have "(0::real) \<le> 1 / 2 ^ 199" by simp
  with R R0 have "?R * ?R \<le> (1 / 2 ^ 199) * (1 / 2 ^ 199)"
    by (intro mult_mono)
  then have S: "?S \<le> 1 / 2 ^ 398" using S0 by simp
  have "magSq_v v \<le> (1 / 2 ^ 98) * (1 / 2 ^ 98)"
    using magSq_d_lower S by (rule ar_tiny2)
  then have sq: "mag_v v * mag_v v \<le> (1 / 2 ^ 98) * (1 / 2 ^ 98)"
    by (simp only: mag_v_square)
  have "(0::real) \<le> 1 / 2 ^ 98" by simp
  then show ?thesis
    using sq by (rule le_of_square_le)
qed

section \<open>Facts about one particle\<close>

lemma flock_fields [simp]:
  "position (flock w h ps p) = position p"
  "velocity (flock w h ps p) = velocity p"
  "lifespan (flock w h ps p) = lifespan p"
  "decay (flock w h ps p) = decay p"
  "maxSpeed (flock w h ps p) = maxSpeed p"
  "maxForce (flock w h ps p) = maxForce p"
  by (simp_all add: flock_def applyForce_def Let_def)

lemma attraction_fields [simp]:
  "position (attraction atts p) = position p"
  "velocity (attraction atts p) = velocity p"
  "lifespan (attraction atts p) = lifespan p"
  "decay (attraction atts p) = decay p"
  "maxSpeed (attraction atts p) = maxSpeed p"
  "maxForce (attraction atts p) = maxForce p"
  by (simp_all add: attraction_def applyForce_def Let_def split: option.splits)

lemma Particle_update_fields [simp]:
  "isAttracted (Particle_update p) = isAttracted p"
  "decay (Particle_update p) = decay p"
  "maxSpeed (Particle_update p) = maxSpeed p"
  "maxForce (Particle_update p) = maxForce p"
  "velocity (Particle_update p) = limit_v (add_v (velocity p) (acceleration p)) (maxSpeed p)"
  "position (Particle_update p) = add_v (position p) (velocity (Particle_update p))"
  "lifespan (Particle_update p) =
     (if isAttracted p then min 255 (lifespan p + decay p * 2) else lifespan p - decay p)"
  by (simp_all add: Particle_update_def Let_def)

lemma tick_alive: "\<not> isDead (tick w h atts ps p) \<Longrightarrow> 0 < lifespan (tick w h atts ps p)"
  by (simp add: isDead_def)


lemma tick_lifespan_ok: "lifespan_ok p \<Longrightarrow> lifespan_ok (tick w h atts ps p)"
  by (auto simp: lifespan_ok_def tick_def)

lemma Particle_lifespan_ok: "0 \<le> rand_decay d \<Longrightarrow> lifespan_ok (Particle x y d)"
  by (simp add: lifespan_ok_def Particle_def)

subsection \<open>The closest attractor\<close>






subsection \<open>Bounds on the steering forces in double precision\<close>

lemma seek_d_bound:
  assumes F: "1 / 1024 \<le> maxForce p" and st: "1 / 4 \<le> \<bar>strength\<bar>"
  shows "mag_v (seek_d p target strength) \<le> \<bar>strength\<bar> * maxForce p * (1 + 1 / 2 ^ 49)"
proof -
  have pos: "0 \<le> \<bar>strength\<bar> * maxForce p * (1 + 1 / 2 ^ 49)"
    using F by simp
  have sF: "1 / 4096 \<le> \<bar>strength\<bar> * maxForce p"
    using mult_mono[of "1 / 4" "\<bar>strength\<bar>" "1 / 1024" "maxForce p"] F st by simp
  have "mag_v (mult_d (limit_d w (maxForce p)) strength)
      \<le> \<bar>strength\<bar> * maxForce p * (1 + 1 / 2 ^ 49)" for w
  proof -
    let ?L = "limit_d w (maxForce p)"
    have L: "mag_v ?L \<le> maxForce p * (1 + 1 / 2 ^ 50)"
      using F by (rule mag_limit_d)
    have 1: "\<bar>strength\<bar> * mag_v ?L \<le> \<bar>strength\<bar> * (maxForce p * (1 + 1 / 2 ^ 50))"
      using L by (rule mult_left_mono) simp
    have 2: "mag_v (mult_d ?L strength)
        \<le> (1 + 1 / 2 ^ 53) * (\<bar>strength\<bar> * mag_v ?L) + 2 / 2 ^ 200"
      by (rule mag_mult_d)
    from 2 1 sF show ?thesis by (rule ar_seek)
  qed
  then show ?thesis
    using pos by (simp add: seek_d_def Let_def mag_zero)
qed

lemma separate_d_bound:
  assumes F: "1 / 1024 \<le> maxForce p"
  shows "mag_v (separate_d p ps ds) \<le> maxForce p * (1 + 1 / 2 ^ 50)"
proof -
  have small: "(1::real) / 2 ^ 98 \<le> maxForce p * (1 + 1 / 2 ^ 50)"
    using F by (simp; argo)
  have "mag_v w \<le> maxForce p * (1 + 1 / 2 ^ 50)" if "\<not> mag_d w > 0" for w
    using mag_d_zero_small[OF that] small by linarith
  then show ?thesis
    using mag_limit_d[OF F]
    by (auto simp: separate_d_def Let_def split: prod.splits)
qed

lemma zero_bound: "0 \<le> F \<Longrightarrow> mag_v (createVector 0 0) \<le> F * (1 + 1 / 2 ^ 50)"
  by (simp add: mag_zero)

lemma align_d_bound:
  assumes F: "1 / 1024 \<le> maxForce p"
  shows "mag_v (align_d p ps nd) \<le> maxForce p * (1 + 1 / 2 ^ 50)"
proof -
  have "0 \<le> maxForce p" using F by simp
  then show ?thesis
    using mag_limit_d[OF F] zero_bound[of "maxForce p"]
    by (auto simp: align_d_def Let_def split: prod.splits)
qed

lemma borders_d_bound:
  assumes F: "1 / 1024 \<le> maxForce p"
  shows "mag_v (borders_d p w h) \<le> maxForce p * (1 + 1 / 2 ^ 50)"
proof -
  have "0 \<le> maxForce p" using F by simp
  then show ?thesis
    using mag_limit_d[OF F] zero_bound[of "maxForce p"]
    by (auto simp: borders_d_def Let_def split: option.splits)
qed

lemma cohesion_d_bound:
  assumes F: "1 / 1024 \<le> maxForce p"
  shows "mag_v (cohesion_d p ps nd) \<le> 0.5 * maxForce p * (1 + 1 / 2 ^ 49)"
proof -
  have "0 \<le> maxForce p" using F by simp
  then have z: "mag_v (createVector 0 0) \<le> 0.5 * maxForce p * (1 + 1 / 2 ^ 49)"
    by (simp add: mag_zero)
  have "mag_v (seek_d p t 0.5) \<le> 0.5 * maxForce p * (1 + 1 / 2 ^ 49)" for t
    using seek_d_bound[OF F, of "0.5" t] by simp
  then show ?thesis
    using z by (auto simp: cohesion_d_def Let_def split: prod.splits)
qed

lemma map_d_range:
  assumes d: "0 \<le> d" "d < 150"
  shows "1 / 4 \<le> map_d d 0 150 2.5 0.5 \<and> map_d d 0 150 2.5 0.5 \<le> 5 / 2 * (1 + 1 / 2 ^ 51)"
proof -
  let ?t1 = "fl d"
  let ?t3 = "fl (?t1 / 150)"
  let ?t5 = "fl (?t3 * (- 2))"
  let ?t6 = "fl (?t5 + 5 / 2)"
  have m: "map_d d 0 150 2.5 0.5 = ?t6"
    by (simp add: map_d_def fl_150 fl_minus_2)
  have t1: "0 \<le> ?t1" "?t1 \<le> d + d / 2 ^ 53 + 1 / 2 ^ 200"
    using fl_nonneg[OF d(1)] fl_err[of d] d(1) by (simp_all add: abs_le_iff)
  have q: "0 \<le> ?t1 / 150" using t1(1) by simp
  have t3: "0 \<le> ?t3" "?t3 \<le> ?t1 / 150 + (?t1 / 150) / 2 ^ 53 + 1 / 2 ^ 200"
    using fl_nonneg[OF q] fl_err[of "?t1 / 150"] q by (simp_all add: abs_le_iff)
  have n: "?t3 * (- 2) \<le> 0" using t3(1) by simp
  have a: "\<bar>?t3 * (- 2)\<bar> = ?t3 * 2" using t3(1) by simp
  have t5: "?t5 \<le> 0" "?t3 * (- 2) - (?t3 * 2) / 2 ^ 53 - 1 / 2 ^ 200 \<le> ?t5"
    using fl_nonpos[OF n] fl_err[of "?t3 * (- 2)"] unfolding a by (simp_all add: abs_le_iff)
  have t6: "\<bar>?t6 - (?t5 + 5 / 2)\<bar> \<le> \<bar>?t5 + 5 / 2\<bar> / 2 ^ 53 + 1 / 2 ^ 200"
    by (rule fl_err)
  from ar_map[OF d t1 t3 t5 t6] show ?thesis unfolding m by simp
qed

lemma closest_loop_d_Some:
  "closest_loop_d pos atts best = Some (d, c) \<Longrightarrow>
   best = Some (d, c) \<or> (c \<in> set atts \<and> d = dist_d pos c \<and> d < 150)"
proof (induction atts arbitrary: best)
  case Nil
  then show ?case by simp
next
  case (Cons a atts)
  show ?case
  proof (cases "(case best of None \<Rightarrow> True | Some (closestDist, _) \<Rightarrow> dist_d pos a < closestDist)
      \<and> dist_d pos a < 150")
    case True
    with Cons.prems have "closest_loop_d pos atts (Some (dist_d pos a, a)) = Some (d, c)"
      by (simp add: Let_def)
    from Cons.IH[OF this] True show ?thesis by auto
  next
    case False
    with Cons.prems have "closest_loop_d pos atts best = Some (d, c)"
      by (simp add: Let_def)
    from Cons.IH[OF this] show ?thesis by auto
  qed
qed

lemma attraction_seek_d_bound:
  assumes F: "1 / 1024 \<le> maxForce p"
    and cl: "closest_loop_d (position p) atts None = Some (d, c)"
  shows "mag_v (seek_d p c (map_d d 0 150 2.5 0.5)) \<le> 5 / 2 * maxForce p * (1 + 1 / 2 ^ 48)"
proof -
  let ?st = "map_d d 0 150 2.5 0.5"
  from closest_loop_d_Some[OF cl] have d: "d = dist_d (position p) c" "d < 150" by auto
  then have d0: "0 \<le> d" by (simp add: dist_d_nonneg)
  from map_d_range[OF d0 d(2)] have st: "1 / 4 \<le> ?st" "?st \<le> 5 / 2 * (1 + 1 / 2 ^ 51)" by auto
  have sa: "\<bar>?st\<bar> = ?st" using st(1) by simp
  have "mag_v (seek_d p c ?st) \<le> \<bar>?st\<bar> * maxForce p * (1 + 1 / 2 ^ 49)"
    using F by (rule seek_d_bound) (use st(1) in simp)
  then have 1: "mag_v (seek_d p c ?st) \<le> ?st * maxForce p * (1 + 1 / 2 ^ 49)"
    unfolding sa .
  have 2: "?st * maxForce p \<le> 5 / 2 * (1 + 1 / 2 ^ 51) * maxForce p"
    using st(2) by (rule mult_right_mono) (use F in simp)
  show ?thesis
    using 1 2 refl F by (rule ar_attr(1))
qed

section \<open>Facts about the loops of update\<close>

lemma length_splice1: "i < length xs \<Longrightarrow> length (splice1 i xs) = length xs - 1"
  by (simp add: splice1_def)

lemma nth_splice1:
  "j < length xs - 1 \<Longrightarrow> splice1 i xs ! j = (if j < i then xs ! j else xs ! Suc j)"
  by (auto simp: splice1_def nth_append min_def)

text \<open>
  The invariant of the backward loop: before iteration \<open>i - 1\<close> the index is in range,
  the particles below \<open>i\<close> are still as they were (\<open>R\<close>), and the particles from \<open>i\<close> on
  have been processed and have survived (\<open>Q\<close>). So the loop never reads beyond the
  end, and every particle it leaves in the array satisfies \<open>Q\<close>.
\<close>

lemma update_loop_inv:
  assumes step: "\<And>ps p. R p \<Longrightarrow> \<not> isDead (tick w h atts ps p) \<Longrightarrow> Q (tick w h atts ps p)"
  shows "i \<le> length ps \<Longrightarrow> (\<forall>j<i. R (ps ! j)) \<Longrightarrow>
         (\<forall>j. i \<le> j \<and> j < length ps \<longrightarrow> Q (ps ! j)) \<Longrightarrow>
         \<exists>ps'. update_loop i w h atts ps = Inr ps' \<and> (\<forall>q\<in>set ps'. Q q)"
proof (induction i arbitrary: ps)
  case 0
  then show ?case by (auto simp: in_set_conv_nth)
next
  case (Suc i)
  let ?p = "tick w h atts ps (ps ! i)"
  have i: "i < length ps" using Suc.prems(1) by simp
  have Rp: "R (ps ! i)" using Suc.prems(2) by simp
  show ?case
  proof (cases "isDead ?p")
    case True
    let ?ps1 = "splice1 i ps"
    have len: "length ?ps1 = length ps - 1" using i by (rule length_splice1)
    have a: "i \<le> length ?ps1" using i len by simp
    have b: "\<forall>j<i. R (?ps1 ! j)"
      using Suc.prems(2) i by (simp add: nth_splice1)
    have c: "\<forall>j. i \<le> j \<and> j < length ?ps1 \<longrightarrow> Q (?ps1 ! j)"
    proof (intro allI impI)
      fix j assume j: "i \<le> j \<and> j < length ?ps1"
      then have "Suc i \<le> Suc j \<and> Suc j < length ps" using len by auto
      then have "Q (ps ! Suc j)" using Suc.prems(3) by blast
      then show "Q (?ps1 ! j)" using j len by (simp add: nth_splice1)
    qed
    from Suc.IH[OF a b c] True i show ?thesis by simp
  next
    case False
    let ?ps1 = "ps[i := ?p]"
    have Qp: "Q ?p" using step[OF Rp False] .
    have a: "i \<le> length ?ps1" using i by simp
    have b: "\<forall>j<i. R (?ps1 ! j)"
      using Suc.prems(2) by simp
    have c: "\<forall>j. i \<le> j \<and> j < length ?ps1 \<longrightarrow> Q (?ps1 ! j)"
      using Suc.prems(3) Qp by (auto simp: nth_list_update)
    from Suc.IH[OF a b c] False i show ?thesis by (simp add: Let_def)
  qed
qed

lemma update_loop_length:
  "i \<le> length ps \<Longrightarrow>
   \<exists>ps'. update_loop i w h atts ps = Inr ps' \<and> length ps' + deaths i w h atts ps = length ps"
proof (induction i arbitrary: ps)
  case 0
  then show ?case by simp
next
  case (Suc i)
  then have i: "i < length ps" by simp
  show ?case
  proof (cases "isDead (tick w h atts ps (ps ! i))")
    case True
    have "i \<le> length (splice1 i ps)" using i by (simp add: length_splice1)
    from Suc.IH[OF this] True i show ?thesis
      by (auto simp: length_splice1)
  next
    case False
    have "i \<le> length (ps[i := tick w h atts ps (ps ! i)])" using i by simp
    from Suc.IH[OF this] False i show ?thesis
      by (auto simp: Let_def)
  qed
qed

lemma update_loop_start:
  "\<exists>ps'. update_loop (length ps) w h atts ps = Inr ps' \<and>
         length ps' + deaths (length ps) w h atts ps = length ps"
  by (rule update_loop_length) simp

lemma length_replenish: "length (replenish rnd k maxP ps) = max maxP (length ps)"
proof (induction rnd k maxP ps rule: replenish.induct)
  case (1 rnd k maxP ps)
  show ?case
  proof (cases "length ps < maxP")
    case True
    with 1 show ?thesis
      by (subst replenish.simps) (simp add: addParticle_def)
  next
    case False
    then show ?thesis by (subst replenish.simps) simp
  qed
qed

lemma replenish_all:
  "(\<forall>k. R (Particle (rand_x (rnd k)) (rand_y (rnd k)) (rnd k))) \<Longrightarrow> (\<forall>p\<in>set ps. R p) \<Longrightarrow>
   (\<forall>p\<in>set (replenish rnd k maxP ps). R p)"
proof (induction rnd k maxP ps rule: replenish.induct)
  case (1 rnd k maxP ps)
  show ?case
  proof (cases "length ps < maxP")
    case True
    have "\<forall>p\<in>set (addParticle (rnd k) ps). R p"
      using 1(2,3) by (simp add: addParticle_def)
    with 1(1)[OF True 1(2)] True show ?thesis
      by (subst replenish.simps) simp
  next
    case False
    with 1(3) show ?thesis by (subst replenish.simps) simp
  qed
qed

lemma init_loop_all:
  "(\<forall>k. R (Particle (rand_x (rnd k)) (rand_y (rnd k)) (rnd k))) \<Longrightarrow> (\<forall>p\<in>set ps. R p) \<Longrightarrow>
   (\<forall>p\<in>set (init_loop rnd i maxP ps). R p)"
proof (induction rnd i maxP ps rule: init_loop.induct)
  case (1 rnd i maxP ps)
  show ?case
  proof (cases "i < maxP")
    case True
    have "\<forall>p\<in>set (addParticle (rnd i) ps). R p"
      using 1(2,3) by (simp add: addParticle_def)
    with 1(1)[OF True 1(2)] True show ?thesis
      by (subst init_loop.simps) simp
  next
    case False
    with 1(3) show ?thesis by (subst init_loop.simps) simp
  qed
qed

lemma length_init_loop: "length (init_loop rnd i maxP ps) = length ps + (maxP - i)"
proof (induction rnd i maxP ps rule: init_loop.induct)
  case (1 rnd i maxP ps)
  show ?case
  proof (cases "i < maxP")
    case True
    with 1 show ?thesis
      by (subst init_loop.simps) (simp add: addParticle_def)
  next
    case False
    then show ?thesis by (subst init_loop.simps) simp
  qed
qed

text \<open>A property that every surviving particle has after its tick holds for the whole
  population after \<^verbatim>\<open>update\<close>, and \<^verbatim>\<open>update\<close> returns normally.\<close>

lemma update_post:
  assumes "\<And>ps p. \<not> isDead (tick w h (attractors s) ps p) \<Longrightarrow> Q (tick w h (attractors s) ps p)"
  shows "\<exists>s'. ParticleSystem_update w h rnd s = Inr s' \<and> attractors s' = attractors s \<and>
     (\<forall>q\<in>set (particles s'). Q q)"
proof -
  let ?ps = "replenish rnd 0 (maxParticles s) (particles s)"
  have "\<exists>ps'. update_loop (length ?ps) w h (attractors s) ?ps = Inr ps' \<and> (\<forall>q\<in>set ps'. Q q)"
    by (rule update_loop_inv [where R = "\<lambda>_. True"]) (auto simp: assms)
  then show ?thesis
    by (auto simp: ParticleSystem_update_def Let_def)
qed

text \<open>A property of particles that the constructor establishes and a tick keeps is an
  invariant of the population.\<close>

lemma update_post_inv:
  assumes step: "\<And>ps p. R p \<Longrightarrow> \<not> isDead (tick w h (attractors s) ps p) \<Longrightarrow>
                   R (tick w h (attractors s) ps p)"
    and new: "\<forall>k. R (Particle (rand_x (rnd k)) (rand_y (rnd k)) (rnd k))"
    and old: "\<forall>p\<in>set (particles s). R p"
  shows "\<exists>s'. ParticleSystem_update w h rnd s = Inr s' \<and> (\<forall>q\<in>set (particles s'). R q)"
proof -
  let ?ps = "replenish rnd 0 (maxParticles s) (particles s)"
  have all: "\<forall>p\<in>set ?ps. R p"
    using new old by (rule replenish_all)
  have "\<exists>ps'. update_loop (length ?ps) w h (attractors s) ?ps = Inr ps' \<and> (\<forall>q\<in>set ps'. R q)"
    by (rule update_loop_inv [where R = R]) (use step all in auto)
  then show ?thesis
    by (auto simp: ParticleSystem_update_def Let_def)
qed

section \<open>Evaluation on the concrete states\<close>

lemma fresh_particle_fields:
  "position fresh_particle = createVector 100 100"
  "velocity fresh_particle = createVector 1 0"
  "acceleration fresh_particle = createVector 0 0"
  "maxSpeed fresh_particle = 4"
  "maxForce fresh_particle = 0.1"
  "lifespan fresh_particle = 255"
  "decay fresh_particle = 1"
  "\<not> isAttracted fresh_particle"
  by (simp_all add: fresh_particle_def Particle_def draws0_def mult_v_def)

lemma tick_old:
  "tick 800 600 [] [old_particle] old_particle =
     old_particle\<lparr>position := createVector 101 100, lifespan := 0\<rparr>"
  by (simp add: tick_def flock_def attraction_def Particle_update_def separate_def align_def
       cohesion_def borders_def applyForce_def old_particle_def fresh_particle_def Particle_def
       draws0_def vec_ops Let_def)

lemma tick_fresh:
  "tick 800 600 [] [fresh_particle] fresh_particle =
     fresh_particle\<lparr>position := createVector 101 100, lifespan := 254\<rparr>"
  by (simp add: tick_def flock_def attraction_def Particle_update_def separate_def align_def
       cohesion_def borders_def applyForce_def fresh_particle_def Particle_def
       draws0_def vec_ops Let_def)

lemma tick_attracted:
  "tick 800 600 [] [fresh_particle\<lparr>isAttracted := True\<rparr>]
       (fresh_particle\<lparr>isAttracted := True\<rparr>) =
     fresh_particle\<lparr>position := createVector 101 100, lifespan := 254\<rparr>"
  by (simp add: tick_def flock_def attraction_def Particle_update_def separate_def align_def
       cohesion_def borders_def applyForce_def fresh_particle_def Particle_def
       draws0_def vec_ops Let_def)

lemma update_fresh:
  "ParticleSystem_update 800 600 rnd0 system_fresh =
     Inr (system_fresh\<lparr>particles :=
       [fresh_particle\<lparr>position := createVector 101 100, lifespan := 254\<rparr>]\<rparr>)"
  by (simp add: ParticleSystem_update_def system_fresh_def replenish.simps tick_fresh isDead_def)




lemma seek_fresh:
  "seek fresh_particle (createVector 103 100)
     (map_p5 (dist_v (position fresh_particle) (createVector 103 100)) 0 150 2.5 0.5)
    = createVector 0.246 0"
  by (simp add: seek_def fresh_particle_def Particle_def draws0_def map_p5_def vec_ops
        Let_def sqrt9)






subsection \<open>Evaluation in double precision\<close>

lemma fl_cex_X: "fl (19 / 8) = 19 / 8"
  using fl_near[of 51 "19 / 8" "5348024557502464"] by simp

lemma fl_cex_Y: "fl (29 / 8) = 29 / 8"
  using fl_near[of 51 "29 / 8" "8162774324609024"] by simp

lemma fl_cex_XX: "fl (361 / 64) = 361 / 64"
  using fl_near[of 50 "361 / 64" "6350779162034176"] by simp

lemma fl_cex_YY: "fl (841 / 64) = 841 / 64"
  using fl_near[of 49 "841 / 64" "7397514231676928"] by simp

lemma fl_cex_S: "fl (601 / 32) = 601 / 32"
  using fl_near[of 48 "601 / 32" "5286451906347008"] by simp

lemma fl_cex_s: "fl (sqrt (601 / 32)) = 1219837664290223 / 281474976710656"
  using fl_sqrt_near[of 50 "4879350657160892" "601 / 32"] by simp

lemma fl_cex_x1: "fl (668503069687808 / 1219837664290223) = 2468090848214495 / 4503599627370496"
  using fl_near[of 53 "668503069687808 / 1219837664290223" "4936181696428990"] by simp

lemma fl_cex_y1: "fl (1020346790576128 / 1219837664290223) = 1883543015742641 / 2251799813685248"
  using fl_near[of 53 "1020346790576128 / 1219837664290223" "7534172062970564"] by simp

lemma fl_cex_x2: "fl (2468090848214495 / 1125899906842624) = 2468090848214495 / 1125899906842624"
  using fl_near[of 51 "2468090848214495 / 1125899906842624" "4936181696428990"] by simp

lemma fl_cex_y2: "fl (1883543015742641 / 562949953421312) = 1883543015742641 / 562949953421312"
  using fl_near[of 51 "1883543015742641 / 562949953421312" "7534172062970564"] by simp

lemma fl_cex_b1: "fl (6091472435040145396929528105025 / 1267650600228229401496703205376) = 2705157180500415 / 562949953421312"
  using fl_near[of 50 "6091472435040145396929528105025 / 1267650600228229401496703205376" "5410314361000830"] by simp

lemma fl_cex_b2: "fl (3547734292152882761956745654881 / 316912650057057350374175801344) = 1575510518560145 / 140737488355328"
  using fl_near[of 49 "3547734292152882761956745654881 / 316912650057057350374175801344" "6302042074240580"] by simp

lemma fl_cex_b3: "fl (9007199254740995 / 562949953421312) = 2251799813685249 / 140737488355328"
  using fl_tie_up[of 48 "9007199254740995 / 562949953421312" "4503599627370498"] by simp

lemma fl_cex_b4: "fl (sqrt (2251799813685249 / 140737488355328)) = 4503599627370497 / 1125899906842624"
  using fl_sqrt_near[of 50 "4503599627370497" "2251799813685249 / 140737488355328"] by simp

lemma cex_add:
  "add_d (velocity fast_particle) (acceleration fast_particle) = createVector (19 / 8) (29 / 8)"
  by (simp add: fast_particle_def add_d_def fl_cex_X fl_cex_Y)

lemma cex_magSq: "magSq_d (createVector (19 / 8) (29 / 8)) = 601 / 32"
  by (simp add: magSq_d_def fl_cex_XX fl_cex_YY fl_cex_S)

lemma cex_div:
  "div_d (createVector (19 / 8) (29 / 8)) (1219837664290223 / 281474976710656) = createVector (2468090848214495 / 4503599627370496) (1883543015742641 / 2251799813685248)"
  by (simp add: div_d_def fl_cex_x1 fl_cex_y1)

lemma cex_mult:
  "mult_d (createVector (2468090848214495 / 4503599627370496) (1883543015742641 / 2251799813685248)) 4 = createVector (2468090848214495 / 1125899906842624) (1883543015742641 / 562949953421312)"
  by (simp add: mult_d_def fl_cex_x2 fl_cex_y2)

lemma cex_limit:
  "limit_d (createVector (19 / 8) (29 / 8)) 4 = createVector (2468090848214495 / 1125899906842624) (1883543015742641 / 562949953421312)"
proof -
  have m: "fl (4 * 4) = 16" using fl_16 by simp
  have g: "(601 / 32 :: real) > 16" by simp
  show ?thesis
    unfolding limit_d_def cex_magSq m Let_def fl_cex_s cex_div cex_mult using g by simp
qed

lemma cex_velocity:
  "velocity (Particle_update_d fast_particle) = createVector (2468090848214495 / 1125899906842624) (1883543015742641 / 562949953421312)"
proof -
  have ms: "maxSpeed fast_particle = 4"
    by (simp add: fast_particle_def Particle_d_def)
  have "velocity (Particle_update_d fast_particle) =
      limit_d (add_d (velocity fast_particle) (acceleration fast_particle)) (maxSpeed fast_particle)"
    by (simp add: Particle_update_d_def Let_def)
  then show ?thesis
    unfolding cex_add ms cex_limit .
qed

lemma cex_mag_d: "mag_d (createVector (2468090848214495 / 1125899906842624) (1883543015742641 / 562949953421312)) = 4503599627370497 / 1125899906842624"
  by (simp add: mag_d_def magSq_d_def fl_cex_b1 fl_cex_b2 fl_cex_b3 fl_cex_b4)

lemma fast_particle_fields:
  "position fast_particle = createVector 100 100"
  "maxSpeed fast_particle = 4"
  "maxForce fast_particle = 3602879701896397 / 36028797018963968"
  by (simp_all add: fast_particle_def Particle_d_def fl_tenth)

lemma dist_d_fast_3: "dist_d (position fast_particle) (createVector 103 100) = 3"
  by (simp add: fast_particle_fields dist_d_def sub_d_def mag_d_def magSq_d_def fl_3 fl_9 fl_zero sqrt9)

lemma closest_d_fast:
  "closest_loop_d (position fast_particle) [createVector 103 100] None =
     Some (3, createVector 103 100)"
  by (simp add: dist_d_fast_3 Let_def)

subsection \<open>The attraction force on a new particle, in double precision\<close>

text \<open>
  A new particle at (100, 100) with velocity (1, 0) and an attractor at (103, 100), three
  units away: the strength is the binary64 number nearest to 2.46 and \<^verbatim>\<open>seek\<close> returns
  the vector whose x is the binary64 number nearest to 0.246, and whose y is 0.
\<close>

lemma fl_seek_third: "fl (1 / 3) = 6004799503160661 / 18014398509481984"
  using fl_near[of 54 "1 / 3" "6004799503160661"] by simp

lemma fl_seek_unit: "fl (18014398509481983 / 18014398509481984) = 1"
  using fl_tie_up[of 53 "18014398509481983 / 18014398509481984" "9007199254740992"] by simp

lemma fl_4: "fl (4) = 4"
  using fl_near[of 50 "4" "4503599627370496"] by simp

lemma fl_1: "fl (1) = 1"
  using fl_near[of 52 "1" "4503599627370496"] by simp

lemma fl_seek_FF: "fl (12980742146337070512478121581609 / 1298074214633706907132624082305024) = 1441151880758559 / 144115188075855872"
  using fl_near[of 59 "12980742146337070512478121581609 / 1298074214633706907132624082305024" "5764607523034236"] by simp

lemma fl_seek_F: "fl (3602879701896397 / 36028797018963968) = 3602879701896397 / 36028797018963968"
  using fl_near[of 56 "3602879701896397 / 36028797018963968" "7205759403792794"] by simp

lemma fl_seek_a: "fl (1 / 50) = 5764607523034235 / 288230376151711744"
  using fl_near[of 58 "1 / 50" "5764607523034235"] by simp

lemma fl_seek_b: "fl (- (5764607523034235 / 144115188075855872)) = - (5764607523034235 / 144115188075855872)"
  using fl_near[of 57 "- (5764607523034235 / 144115188075855872)" "-5764607523034235"] by simp

lemma fl_seek_st: "fl (354523362666605445 / 144115188075855872) = 2769713770832855 / 1125899906842624"
  using fl_near[of 51 "354523362666605445 / 144115188075855872" "5539427541665710"] by simp

lemma fl_seek_r: "fl (9978945524996622258409613723435 / 40564819207303340847894502572032) = 553942754166571 / 2251799813685248"
  using fl_near[of 55 "9978945524996622258409613723435 / 40564819207303340847894502572032" "8863084066665136"] by simp

lemma fl_seek_rr: "fl (306852574893646112980813898041 / 5070602400912917605986812821504) = 4360637360799247 / 72057594037927936"
  using fl_near[of 57 "306852574893646112980813898041 / 5070602400912917605986812821504" "8721274721598494"] by simp

lemma fl_seek_rr2: "fl (4360637360799247 / 72057594037927936) = 4360637360799247 / 72057594037927936"
  using fl_near[of 57 "4360637360799247 / 72057594037927936" "8721274721598494"] by simp

lemma fl_seek_m: "fl (sqrt (4360637360799247 / 72057594037927936)) = 553942754166571 / 2251799813685248"
  using fl_sqrt_near[of 55 "8863084066665136" "4360637360799247 / 72057594037927936"] by simp

lemma seek_ex_velocity: "velocity (Particle_d 100 100 draws0) = createVector 1 0"
  by (simp add: Particle_d_def draws0_def mult_d_def fl_1 fl_zero)

lemma seek_ex_fields:
  "position (Particle_d 100 100 draws0) = createVector 100 100"
  "maxSpeed (Particle_d 100 100 draws0) = 4"
  "maxForce (Particle_d 100 100 draws0) = 3602879701896397 / 36028797018963968"
  by (simp_all add: Particle_d_def fl_tenth)

lemma seek_ex_mag3: "mag_d (createVector 3 0) = 3"
  by (simp add: mag_d_def magSq_d_def fl_3 fl_9 fl_zero sqrt9)

lemma seek_ex_dist: "dist_d (createVector 100 100) (createVector 103 100) = 3"
  by (simp add: dist_d_def sub_d_def seek_ex_mag3 fl_3 fl_zero)

lemma seek_ex_strength: "map_d 3 0 150 2.5 0.5 = 2769713770832855 / 1125899906842624"
  by (simp add: map_d_def fl_3 fl_150 fl_minus_2 fl_seek_a fl_seek_b fl_seek_st)

lemma seek_ex_normalize: "normalize_d (createVector 3 0) = createVector 1 0"
  by (simp add: normalize_d_def Let_def seek_ex_mag3 mult_d_def fl_seek_third fl_seek_unit fl_zero)

lemma seek_ex_limit:
  "limit_d (createVector 3 0) (3602879701896397 / 36028797018963968) = createVector (3602879701896397 / 36028797018963968) 0"
  by (simp add: limit_d_def Let_def magSq_d_def fl_9 fl_3 fl_zero fl_seek_FF sqrt9 div_d_def mult_d_def fl_1 fl_seek_F)

lemma seek_d_attraction_value:
  "seek_d (Particle_d 100 100 draws0) (createVector 103 100)
     (map_d (dist_d (position (Particle_d 100 100 draws0)) (createVector 103 100)) 0 150 2.5 0.5) =
   createVector (553942754166571 / 2251799813685248) 0"
  unfolding seek_ex_fields seek_ex_dist seek_ex_strength
  by (simp add: seek_d_def Let_def seek_ex_fields seek_ex_velocity sub_d_def fl_3 fl_zero seek_ex_mag3 seek_ex_normalize
      mult_d_def fl_4 seek_ex_limit fl_seek_r)

lemma seek_ex_mag_d: "mag_d (createVector (553942754166571 / 2251799813685248) 0) = 553942754166571 / 2251799813685248"
  by (simp add: mag_d_def magSq_d_def fl_zero fl_seek_rr fl_seek_rr2 fl_seek_m)

lemma seek_ex_mag_v: "mag_v (createVector (553942754166571 / 2251799813685248) 0) = 553942754166571 / 2251799813685248"
  using real_sqrt_abs[of "553942754166571 / 2251799813685248"] by (simp add: mag_v_def magSq_v_def power2_eq_square)

lemma seek_d_attraction_exceeds:
  "maxForce (Particle_d 100 100 draws0) <
     mag_v (seek_d (Particle_d 100 100 draws0) (createVector 103 100)
       (map_d (dist_d (position (Particle_d 100 100 draws0)) (createVector 103 100)) 0 150 2.5 0.5)) \<and>
   maxForce (Particle_d 100 100 draws0) <
     mag_d (seek_d (Particle_d 100 100 draws0) (createVector 103 100)
       (map_d (dist_d (position (Particle_d 100 100 draws0)) (createVector 103 100)) 0 150 2.5 0.5))"
  unfolding seek_d_attraction_value seek_ex_mag_d seek_ex_mag_v by (simp add: seek_ex_fields)

section \<open>Population size (C1)\<close>

text \<open>
  C1 claims that after every completed \<^verbatim>\<open>update()\<close> the population has exactly
  \<^verbatim>\<open>maxParticles\<close> members, however many died in the tick. The program refills the
  population at the head of \<^verbatim>\<open>update\<close> and removes the dead afterwards, in the same
  call. A population of one particle whose lifespan falls to 0 in this tick is empty
  after the call, while \<^verbatim>\<open>maxParticles\<close> is 1.
\<close>

theorem update_population_counterexample:
  "ParticleSystem_update 800 600 rnd0 system_dying = Inr (system_dying\<lparr>particles := []\<rparr>) \<and>
   length (particles (system_dying\<lparr>particles := []\<rparr>)) \<noteq>
     maxParticles (system_dying\<lparr>particles := []\<rparr>)"
  by (simp add: ParticleSystem_update_def system_dying_def replenish.simps tick_old isDead_def
        splice1_def)

text \<open>
  C1 as amended: the constructor makes a population of \<^verbatim>\<open>maxParticles\<close> particles.
  \<^verbatim>\<open>update()\<close> returns normally, and when the population was not larger than
  \<^verbatim>\<open>maxParticles\<close> before the call, the number of particles after it is
  \<^verbatim>\<open>maxParticles\<close> less the number of particles that died during the tick, so again
  not larger than \<^verbatim>\<open>maxParticles\<close>.
\<close>

theorem update_population:
  "length (particles (ParticleSystem n rnd)) = maxParticles (ParticleSystem n rnd) \<and>
   (\<exists>s'. ParticleSystem_update w h rnd s = Inr s' \<and> maxParticles s' = maxParticles s \<and>
      length (particles s') + died w h rnd s = max (maxParticles s) (length (particles s)) \<and>
      (length (particles s) \<le> maxParticles s \<longrightarrow>
         length (particles s') + died w h rnd s = maxParticles s \<and>
         length (particles s') \<le> maxParticles s'))"
proof -
  let ?ps = "replenish rnd 0 (maxParticles s) (particles s)"
  have len: "length ?ps = max (maxParticles s) (length (particles s))"
    by (simp add: length_replenish)
  obtain ps' where ps': "update_loop (length ?ps) w h (attractors s) ?ps = Inr ps'"
      "length ps' + deaths (length ?ps) w h (attractors s) ?ps = length ?ps"
    using update_loop_start by blast
  have "ParticleSystem_update w h rnd s = Inr (s\<lparr>particles := ps'\<rparr>)"
    using ps'(1) by (simp add: ParticleSystem_update_def Let_def)
  moreover have "length ps' + died w h rnd s = max (maxParticles s) (length (particles s))"
    using ps'(2) len by (simp add: died_def Let_def)
  ultimately show ?thesis
    by (auto simp: ParticleSystem_def length_init_loop)
qed

theorem update_population_witness:
  "length (particles system_dying) \<le> maxParticles system_dying \<and>
   died 800 600 rnd0 system_dying = 1 \<and>
   (\<exists>s'. ParticleSystem_update 800 600 rnd0 system_dying = Inr s' \<and>
         length (particles s') + 1 = maxParticles system_dying)"
proof -
  have h: "length (particles system_dying) \<le> maxParticles system_dying"
    by (simp add: system_dying_def)
  have d: "died 800 600 rnd0 system_dying = 1"
    by (simp add: died_def system_dying_def replenish.simps tick_old isDead_def)
  from h d update_population [of 1 rnd0 800 600 system_dying] show ?thesis by auto
qed

section \<open>Force bound (C2)\<close>

text \<open>
  C2 claims that every vector returned by \<^verbatim>\<open>seek\<close>, \<^verbatim>\<open>separate\<close>, \<^verbatim>\<open>align\<close>,
  \<^verbatim>\<open>cohesion\<close> or \<^verbatim>\<open>borders\<close> is at most \<^verbatim>\<open>maxForce\<close> long, also when the attraction
  step calls \<^verbatim>\<open>seek\<close> with its strength. \<^verbatim>\<open>seek\<close> multiplies by the strength after the
  clamp: for a new particle at (100, 100) with velocity (1, 0) and an attractor at
  (103, 100) the strength is 2.46 and \<^verbatim>\<open>seek\<close> returns (0.246, 0), computed here in
  exact arithmetic, which is more than twice as long as the \<^verbatim>\<open>maxForce\<close> of 0.1. In
  double precision the same particle gets the binary64 numbers nearest to these values
  (\<open>seek_d_attraction_exceeds\<close> above).
\<close>

theorem seek_attraction_counterexample:
  "\<not> mag_v (seek fresh_particle (createVector 103 100)
           (map_p5 (dist_v (position fresh_particle) (createVector 103 100)) 0 150 2.5 0.5))
      \<le> maxForce fresh_particle"
proof -
  have m: "mag_v (createVector 0.246 0) = 0.246"
    using real_sqrt_abs[of "0.246"] by (simp add: mag_v_def magSq_v_def power2_eq_square)
  have mf: "maxForce fresh_particle = 0.1"
    by (simp add: fresh_particle_def Particle_def)
  show ?thesis
    unfolding seek_fresh m mf by simp
qed

text \<open>
  C2 as amended, in double precision, for a particle whose \<^verbatim>\<open>maxForce\<close> is at least
  1/1024 (the constructor sets it to 0.1) and as long as no operation overflows: the
  vectors returned by \<^verbatim>\<open>separate\<close>, \<^verbatim>\<open>align\<close> and \<^verbatim>\<open>borders\<close> are at most
  \<^verbatim>\<open>maxForce\<close> long up to a relative excess of \<open>1 / 2 ^ 48\<close> that comes from rounding;
  \<^verbatim>\<open>seek(target, strength)\<close> multiplies by the strength after the clamp and returns a
  vector at most \<open>|strength| * maxForce\<close> long up to the same excess (for a strength of
  at least 1/4 in absolute value): that is \<^verbatim>\<open>maxForce\<close> for the default strength 1, half
  of it inside \<^verbatim>\<open>cohesion\<close>, and 2.5 times \<^verbatim>\<open>maxForce\<close>, up to \<open>1 / 2 ^ 47\<close>, when the
  attraction step calls \<^verbatim>\<open>seek\<close> with the strength it maps from the distance of the
  closest attractor. The length is the exact one and the one \<^verbatim>\<open>mag()\<close> computes.
\<close>

theorem steering_force_bounds:
  "1 / 1024 \<le> maxForce p \<Longrightarrow>
   (1 / 4 \<le> \<bar>strength\<bar> \<longrightarrow>
      magnitude_within (seek_d p target strength)
        (\<bar>strength\<bar> * maxForce p * (1 + 1 / 2 ^ 48))) \<and>
   magnitude_within (seek_d p target 1) (maxForce p * (1 + 1 / 2 ^ 48)) \<and>
   magnitude_within (separate_d p ps desiredSeparation) (maxForce p * (1 + 1 / 2 ^ 48)) \<and>
   magnitude_within (align_d p ps neighborDistance) (maxForce p * (1 + 1 / 2 ^ 48)) \<and>
   magnitude_within (cohesion_d p ps neighborDistance) (0.5 * maxForce p * (1 + 1 / 2 ^ 48)) \<and>
   magnitude_within (borders_d p width height) (maxForce p * (1 + 1 / 2 ^ 48)) \<and>
   (closest_loop_d (position p) atts None = Some (d, c) \<longrightarrow>
      magnitude_within (seek_d p c (map_d d 0 150 2.5 0.5))
        (2.5 * maxForce p * (1 + 1 / 2 ^ 47)))"
proof -
  assume F: "1 / 1024 \<le> maxForce p"
  have sk: "magnitude_within (seek_d p t st) (\<bar>st\<bar> * maxForce p * (1 + 1 / 2 ^ 48))"
    if "1 / 4 \<le> \<bar>st\<bar>" for t st
  proof -
    have "1 / 4096 \<le> \<bar>st\<bar> * maxForce p"
      using mult_mono[of "1 / 4" "\<bar>st\<bar>" "1 / 1024" "maxForce p"] F that by simp
    with seek_d_bound[OF F that, of t] show ?thesis by (rule within_of_bound)
  qed
  have sk1: "magnitude_within (seek_d p target 1) (maxForce p * (1 + 1 / 2 ^ 48))"
    using sk[of 1 target] by simp
  have co: "magnitude_within (cohesion_d p ps neighborDistance) (0.5 * maxForce p * (1 + 1 / 2 ^ 48))"
  proof -
    have "1 / 4096 \<le> 0.5 * maxForce p" using F by simp
    with cohesion_d_bound[OF F, of ps neighborDistance] show ?thesis by (rule within_of_bound)
  qed
  have at: "magnitude_within (seek_d p c (map_d d 0 150 2.5 0.5))
        (2.5 * maxForce p * (1 + 1 / 2 ^ 47))"
    if cl: "closest_loop_d (position p) atts None = Some (d, c)"
  proof -
    have "1 / 4096 \<le> 5 / 2 * maxForce p" using F by simp
    with attraction_seek_d_bound[OF F cl]
    have "magnitude_within (seek_d p c (map_d d 0 150 2.5 0.5))
        (5 / 2 * maxForce p * (1 + 1 / 2 ^ 47))"
      by (rule within_of_bound47)
    then show ?thesis by simp
  qed
  show ?thesis
    using sk[of strength target] sk1 co at
      within_limit[OF separate_d_bound[OF F] F, of ps desiredSeparation]
      within_limit[OF align_d_bound[OF F] F, of ps neighborDistance]
      within_limit[OF borders_d_bound[OF F] F, of width height]
    by blast
qed

theorem steering_force_bounds_witness:
  "1 / 1024 \<le> maxForce fast_particle \<and> 1 / 4 \<le> \<bar>1 :: real\<bar> \<and>
   closest_loop_d (position fast_particle) [createVector 103 100] None =
     Some (3, createVector 103 100) \<and>
   magnitude_within (seek_d fast_particle (createVector 103 100) (map_d 3 0 150 2.5 0.5))
     (2.5 * maxForce fast_particle * (1 + 1 / 2 ^ 47)) \<and>
   magnitude_within (seek_d fast_particle (createVector 103 100) 1)
     (\<bar>1\<bar> * maxForce fast_particle * (1 + 1 / 2 ^ 48)) \<and>
   magnitude_within (borders_d fast_particle 800 600)
     (maxForce fast_particle * (1 + 1 / 2 ^ 48))"
proof -
  have h: "1 / 1024 \<le> maxForce fast_particle"
    by (simp add: fast_particle_fields)
  have s: "1 / 4 \<le> \<bar>1 :: real\<bar>" by simp
  from h s closest_d_fast
    steering_force_bounds [OF h, of 1 "createVector 103 100" "[]" 25 50 800 600
      "[createVector 103 100]" 3 "createVector 103 100"]
  show ?thesis by blast
qed

section \<open>Speed bound (C3)\<close>

text \<open>
  C3 claims that immediately after \<^verbatim>\<open>Particle.update()\<close> the length of the velocity is
  at most \<^verbatim>\<open>maxSpeed\<close>. In exact arithmetic \<^verbatim>\<open>velocity.limit(maxSpeed)\<close> makes it so.
  In double precision \<^verbatim>\<open>limit\<close> divides by the rounded length and multiplies by
  \<^verbatim>\<open>maxSpeed\<close>, and the result can be longer than \<^verbatim>\<open>maxSpeed\<close>: with velocity
  (2, 3.25), acceleration (0.375, 0.375) and \<^verbatim>\<open>maxSpeed\<close> 4 the new velocity is
  (2.192105029243492, 3.345844518319014). The squares of its components add up to more
  than 16, and \<^verbatim>\<open>mag()\<close> computes 4.000000000000001 for it.
\<close>

theorem Particle_update_speed_counterexample:
  "maxSpeed (Particle_update_d fast_particle) < mag_v (velocity (Particle_update_d fast_particle)) \<and>
   maxSpeed (Particle_update_d fast_particle) < mag_d (velocity (Particle_update_d fast_particle))"
proof -
  have ms: "maxSpeed (Particle_update_d fast_particle) = 4"
    by (simp add: Particle_update_d_def Let_def fast_particle_def Particle_d_def)
  have "4 < mag_v (createVector (2468090848214495 / 1125899906842624) (1883543015742641 / 562949953421312))"
    unfolding mag_v_def by (rule real_less_rsqrt) (simp add: magSq_v_def)
  moreover have "4 < mag_d (createVector (2468090848214495 / 1125899906842624) (1883543015742641 / 562949953421312))"
    unfolding cex_mag_d by simp
  ultimately show ?thesis
    unfolding ms cex_velocity by simp
qed

text \<open>
  C3 as amended, in double precision, for a particle whose \<^verbatim>\<open>maxSpeed\<close> is at least
  1/1024 (the constructor sets it to 4) and as long as no operation overflows:
  immediately after \<^verbatim>\<open>Particle.update()\<close> the length of the velocity, the exact one
  and the one \<^verbatim>\<open>mag()\<close> computes, is at most \<^verbatim>\<open>maxSpeed\<close> up to a relative excess of
  \<open>1 / 2 ^ 48\<close> that comes from rounding.
\<close>

theorem Particle_update_speed_bound:
  "1 / 1024 \<le> maxSpeed p \<Longrightarrow>
   magnitude_within (velocity (Particle_update_d p))
     (maxSpeed (Particle_update_d p) * (1 + 1 / 2 ^ 48))"
proof -
  assume m: "1 / 1024 \<le> maxSpeed p"
  have v: "velocity (Particle_update_d p) =
      limit_d (add_d (velocity p) (acceleration p)) (maxSpeed p)"
    and s: "maxSpeed (Particle_update_d p) = maxSpeed p"
    by (simp_all add: Particle_update_d_def Let_def)
  show ?thesis
    unfolding v s using mag_limit_d[OF m] m by (rule within_limit)
qed

theorem Particle_update_speed_bound_witness:
  "1 / 1024 \<le> maxSpeed fast_particle \<and>
   mag_d (velocity (Particle_update_d fast_particle)) = 4503599627370497 / 1125899906842624 \<and>
   magnitude_within (velocity (Particle_update_d fast_particle))
     (maxSpeed (Particle_update_d fast_particle) * (1 + 1 / 2 ^ 48))"
proof -
  have h: "1 / 1024 \<le> maxSpeed fast_particle"
    by (simp add: fast_particle_fields)
  have d: "mag_d (velocity (Particle_update_d fast_particle)) = 4503599627370497 / 1125899906842624"
    unfolding cex_velocity cex_mag_d ..
  from h d Particle_update_speed_bound [OF h] show ?thesis by blast
qed

section \<open>Attraction to a single attractor (C4)\<close>




section \<open>Lifespan (C5)\<close>

text \<open>
  C5: \<^verbatim>\<open>Particle.update()\<close> lowers the lifespan by \<^verbatim>\<open>decay\<close> when \<^verbatim>\<open>isAttracted\<close> is
  false, and makes it \<^verbatim>\<open>min(255, lifespan + decay * 2)\<close> when it is true. The
  constructor starts the lifespan at 255. So no lifespan exceeds 255: this holds for a
  particle after its \<^verbatim>\<open>update()\<close> when it held before, for the population the
  constructor of \<^verbatim>\<open>ParticleSystem\<close> makes, and for the population after
  \<^verbatim>\<open>ParticleSystem.update()\<close> when it held before (the decay rates drawn at random
  are not negative).
\<close>

theorem Particle_update_lifespan:
  "lifespan (Particle_update p) =
     (if isAttracted p then min 255 (lifespan p + decay p * 2) else lifespan p - decay p) \<and>
   lifespan (Particle x y d) = 255 \<and>
   (lifespan_ok p \<longrightarrow> lifespan_ok (Particle_update p)) \<and>
   ((\<forall>k. 0 \<le> rand_decay (rnd k)) \<longrightarrow>
      (\<forall>q\<in>set (particles (ParticleSystem n rnd)). lifespan_ok q)) \<and>
   ((\<forall>k. 0 \<le> rand_decay (rnd k)) \<and> (\<forall>q\<in>set (particles s). lifespan_ok q) \<longrightarrow>
      (\<exists>s'. ParticleSystem_update w h rnd s = Inr s' \<and>
            (\<forall>q\<in>set (particles s'). lifespan_ok q)))"
proof (intro conjI impI)
  show "lifespan (Particle_update p) =
     (if isAttracted p then min 255 (lifespan p + decay p * 2) else lifespan p - decay p)"
    by simp
  show "lifespan (Particle x y d) = 255"
    by (simp add: Particle_def)
  show "lifespan_ok (Particle_update p)" if "lifespan_ok p"
    using that by (auto simp: lifespan_ok_def)
  show "\<forall>q\<in>set (particles (ParticleSystem n rnd)). lifespan_ok q"
    if "\<forall>k. 0 \<le> rand_decay (rnd k)"
  proof -
    have "\<forall>k. lifespan_ok (Particle (rand_x (rnd k)) (rand_y (rnd k)) (rnd k))"
      using that by (simp add: Particle_lifespan_ok)
    then have "\<forall>q\<in>set (init_loop rnd 0 n []). lifespan_ok q"
      by (rule init_loop_all) simp
    then show ?thesis
      by (simp add: ParticleSystem_def)
  qed
  show "\<exists>s'. ParticleSystem_update w h rnd s = Inr s' \<and>
            (\<forall>q\<in>set (particles s'). lifespan_ok q)"
    if "(\<forall>k. 0 \<le> rand_decay (rnd k)) \<and> (\<forall>q\<in>set (particles s). lifespan_ok q)"
    by (rule update_post_inv)
      (use that in \<open>simp_all add: tick_lifespan_ok Particle_lifespan_ok\<close>)
qed

theorem Particle_update_lifespan_witness:
  "lifespan_ok fresh_particle \<and> (\<forall>k. 0 \<le> rand_decay (rnd0 k)) \<and>
   lifespan (Particle_update fresh_particle) = 254 \<and>
   lifespan (Particle_update (fresh_particle\<lparr>isAttracted := True\<rparr>)) = 255 \<and>
   lifespan_ok (Particle_update fresh_particle) \<and>
   (\<exists>s'. ParticleSystem_update 800 600 rnd0 system_fresh = Inr s' \<and>
         (\<forall>q\<in>set (particles s'). lifespan_ok q))"
proof -
  have h1: "lifespan_ok fresh_particle"
    by (simp add: lifespan_ok_def fresh_particle_fields)
  have h2: "\<forall>k. 0 \<le> rand_decay (rnd0 k)"
    by (simp add: rnd0_def draws0_def)
  have h3: "\<forall>q\<in>set (particles system_fresh). lifespan_ok q"
    using h1 by (simp add: system_fresh_def)
  from Particle_update_lifespan [of fresh_particle 0 0 draws0 rnd0 1 system_fresh 800 600]
    Particle_update_lifespan
      [of "fresh_particle\<lparr>isAttracted := True\<rparr>" 0 0 draws0 rnd0 1 system_fresh 800 600]
    h1 h2 h3 fresh_particle_fields
  show ?thesis by simp
qed

section \<open>Dead particles leave in the same tick (C6)\<close>

text \<open>
  C6: a particle whose lifespan has come down to 0 or less in a tick is removed within
  that call of \<^verbatim>\<open>update()\<close>; so \<^verbatim>\<open>update()\<close> returns normally and every particle
  that is in the population after it has a lifespan above 0.
\<close>

theorem update_removes_dead:
  "\<exists>s'. ParticleSystem_update w h rnd s = Inr s' \<and> (\<forall>q\<in>set (particles s'). 0 < lifespan q)"
  using update_post [of w h s "\<lambda>q. 0 < lifespan q" rnd] tick_alive by blast

theorem update_removes_dead_witness:
  "ParticleSystem_update 800 600 rnd0 system_fresh =
     Inr (system_fresh\<lparr>particles :=
       [fresh_particle\<lparr>position := createVector 101 100, lifespan := 254\<rparr>]\<rparr>) \<and>
   0 < lifespan (fresh_particle\<lparr>position := createVector 101 100, lifespan := 254\<rparr>)"
  using update_removes_dead [of 800 600 rnd0 system_fresh] by (simp add: update_fresh)

section \<open>A target closer than one unit (C7)\<close>



section \<open>No attractors (C8)\<close>

text \<open>
  C8: after \<^verbatim>\<open>setAttractors([])\<close>, \<^verbatim>\<open>update()\<close> returns normally and leaves
  \<^verbatim>\<open>isAttracted\<close> false in every particle of the population, and no attraction force is
  applied: the attraction step only resets the flag, so a particle's tick is
  \<^verbatim>\<open>p.update()\<close> on the outcome of the four flocking forces.
\<close>

theorem empty_attractors:
  "attraction [] p = p\<lparr>isAttracted := False\<rparr> \<and>
   tick w h [] ps p = Particle_update ((flock w h ps p)\<lparr>isAttracted := False\<rparr>) \<and>
   (\<exists>s'. ParticleSystem_update w h rnd (setAttractors [] s) = Inr s' \<and>
         (\<forall>q\<in>set (particles s'). \<not> isAttracted q))"
proof -
  have a: "attraction [] q = q\<lparr>isAttracted := False\<rparr>" for q
    by (simp add: attraction_def)
  have "\<exists>s'. ParticleSystem_update w h rnd (setAttractors [] s) = Inr s' \<and>
      attractors s' = attractors (setAttractors [] s) \<and>
      (\<forall>q\<in>set (particles s'). \<not> isAttracted q)"
    by (rule update_post) (simp add: setAttractors_def tick_def a)
  then show ?thesis
    by (auto simp: a tick_def)
qed

theorem empty_attractors_witness:
  "ParticleSystem_update 800 600 rnd0
     (setAttractors [] (system_fresh\<lparr>particles := [fresh_particle\<lparr>isAttracted := True\<rparr>],
        attractors := [createVector 103 100]\<rparr>)) =
     Inr (system_fresh\<lparr>particles :=
       [fresh_particle\<lparr>position := createVector 101 100, lifespan := 254\<rparr>]\<rparr>) \<and>
   \<not> isAttracted (fresh_particle\<lparr>position := createVector 101 100, lifespan := 254\<rparr>)"
proof -
  have e: "ParticleSystem_update 800 600 rnd0
     (setAttractors [] (system_fresh\<lparr>particles := [fresh_particle\<lparr>isAttracted := True\<rparr>],
        attractors := [createVector 103 100]\<rparr>)) =
     Inr (system_fresh\<lparr>particles :=
       [fresh_particle\<lparr>position := createVector 101 100, lifespan := 254\<rparr>]\<rparr>)"
    by (simp add: ParticleSystem_update_def setAttractors_def system_fresh_def replenish.simps
          tick_attracted isDead_def)
  from empty_attractors [of fresh_particle 800 600 "[]" rnd0
      "system_fresh\<lparr>particles := [fresh_particle\<lparr>isAttracted := True\<rparr>],
        attractors := [createVector 103 100]\<rparr>"] e
  show ?thesis by simp
qed

section \<open>The border scenario (C9)\<close>

text \<open>
  C9: for a particle at (5, 300) with velocity (-3, 0) on an 800 by 600 canvas (and
  the \<^verbatim>\<open>maxSpeed\<close> 4 and \<^verbatim>\<open>maxForce\<close> 0.1 of the constructor), \<^verbatim>\<open>borders(800, 600)\<close>
  returns a force that is not zero and has a positive x component: it is (0.1, 0).
\<close>

theorem borders_scenario:
  assumes "position p = createVector 5 300" and "velocity p = createVector (- 3) 0"
    and "maxSpeed p = 4" and "maxForce p = 0.1"
  shows "borders p 800 600 = createVector 0.1 0 \<and> borders p 800 600 \<noteq> createVector 0 0 \<and>
   0 < vx (borders p 800 600)"
proof -
  have "borders p 800 600 = createVector 0.1 0"
    unfolding borders_def assms
    by (simp add: Let_def normalize_v_def limit_v_def mag_v_def magSq_v_def
        mult_v_def sub_v_def div_v_def sqrt16 sqrt49)
  then show ?thesis by simp
qed

theorem borders_scenario_witness:
  "position border_particle = createVector 5 300 \<and>
   velocity border_particle = createVector (- 3) 0 \<and>
   maxSpeed border_particle = 4 \<and> maxForce border_particle = 0.1 \<and>
   borders border_particle 800 600 = createVector 0.1 0 \<and>
   borders border_particle 800 600 \<noteq> createVector 0 0 \<and>
   0 < vx (borders border_particle 800 600)"
proof -
  have h: "position border_particle = createVector 5 300"
     "velocity border_particle = createVector (- 3) 0"
     "maxSpeed border_particle = 4" "maxForce border_particle = 0.1"
    by (simp_all add: border_particle_def fresh_particle_def Particle_def)
  from h borders_scenario [OF h] show ?thesis by blast
qed

section \<open>An attractor closer than one unit (C10)\<close>



end
